theory Spec2Isabelle
  imports Complex_Main "HOL-Library.AList" "HOL-Library.Log_Nat"
begin

section \<open>Python values and dictionaries\<close>

text \<open>
  The repository keeps its state in JSON documents and passes \<open>Dict[str, Any]\<close> payloads
  around. A payload value is a JSON value (a float is the rational number it denotes,
  see the section on floating point); a dictionary is an association list in
  insertion order (a Python \<open>dict\<close> iterates in insertion order, and \<open>d[k] = v\<close> on a
  present key keeps the key's position: that is \<open>AList.update\<close>).
\<close>

datatype pyval =
    VNone
  | VBool bool
  | VInt int
  | VFloat rat
  | VStr string
  | VList "pyval list"
  | VDict "(string \<times> pyval) list"

type_synonym pydict = "(string \<times> pyval) list"

datatype error =
    KeyError string
  | TypeError
  | AttributeError
  | OverflowError
  | JSONDecodeError
  | ValueError
  | SubprocessError
  | TerraformError
  | ValidationError
  | ProxyGenError

text \<open>\<open>d.get(k)\<close>: the value, or \<open>None\<close> when the key is missing.\<close>

definition dict_get :: "pydict \<Rightarrow> string \<Rightarrow> pyval" where
  "dict_get d k = (case map_of d k of None \<Rightarrow> VNone | Some v \<Rightarrow> v)"


text \<open>\<open>k in d\<close>.\<close>

definition dict_has :: "pydict \<Rightarrow> string \<Rightarrow> bool" where
  "dict_has d k = (map_of d k \<noteq> None)"

text \<open>Python truthiness, as \<open>if v:\<close> and \<open>not v\<close> test it.\<close>

fun truthy :: "pyval \<Rightarrow> bool" where
  "truthy VNone = False"
| "truthy (VBool b) = b"
| "truthy (VInt i) = (i \<noteq> 0)"
| "truthy (VFloat x) = (x \<noteq> 0)"
| "truthy (VStr s) = (s \<noteq> [])"
| "truthy (VList xs) = (xs \<noteq> [])"
| "truthy (VDict kvs) = (kvs \<noteq> [])"

section \<open>Decimal rendering\<close>

definition digit_char :: "nat \<Rightarrow> char" where
  "digit_char n = ''0123456789'' ! (n mod 10)"

function str_nat :: "nat \<Rightarrow> string" where
  "str_nat n = (if n < 10 then [digit_char n] else str_nat (n div 10) @ [digit_char n])"
  by pat_completeness auto
termination
  by (relation "measure id") auto

declare str_nat.simps [simp del]

text \<open>\<open>str(i)\<close> of a Python integer, as an f-string renders it.\<close>

definition str_int :: "int \<Rightarrow> string" where
  "str_int i = (if i < 0 then CHR ''-'' # str_nat (nat (- i)) else str_nat (nat i))"

section \<open>Floating point\<close>

text \<open>
  Python's \<open>float\<close> is IEEE binary64. A finite double is modelled by the rational
  number it denotes, and every arithmetic operation is the exact operation followed by
  rounding to the nearest double, ties to even (\<open>rnd\<close>): 53 significant bits, the
  exponent of the last place not below \<open>-1074\<close> (subnormals). Overflow to infinity and
  NaN are outside the model; the prices and sizes of this repository are far from them.
\<close>

definition pow2 :: "int \<Rightarrow> rat" where
  "pow2 e = 2 powi e"

text \<open>\<open>ilog2 x\<close> is the integer \<open>e\<close> with \<open>2^e \<le> x < 2^(e+1)\<close>, for \<open>x > 0\<close>.\<close>

definition ilog2 :: "rat \<Rightarrow> int" where
  "ilog2 x = (let p = fst (quotient_of x); q = snd (quotient_of x);
                  d = bitlen p - bitlen q
              in if pow2 d \<le> x then d else d - 1)"

text \<open>Rounding to the nearest integer, ties to even.\<close>

definition round_half_even :: "rat \<Rightarrow> int" where
  "round_half_even x =
     (let f = \<lfloor>x\<rfloor>; d = x - of_int f
      in if d < 1 / 2 then f
         else if 1 / 2 < d then f + 1
         else if even f then f else f + 1)"

definition ulp_exp :: "rat \<Rightarrow> int" where
  "ulp_exp x = max (ilog2 \<bar>x\<bar> - 52) (- 1074)"

definition rnd :: "rat \<Rightarrow> rat" where
  "rnd x = (if x = 0 then 0
            else of_int (round_half_even (x / pow2 (ulp_exp x))) * pow2 (ulp_exp x))"

definition fadd :: "rat \<Rightarrow> rat \<Rightarrow> rat" where
  "fadd x y = rnd (x + y)"

definition fsub :: "rat \<Rightarrow> rat \<Rightarrow> rat" where
  "fsub x y = rnd (x - y)"

definition fmul :: "rat \<Rightarrow> rat \<Rightarrow> rat" where
  "fmul x y = rnd (x * y)"

text \<open>The divisors of this repository are non-zero literals.\<close>

definition fdiv :: "rat \<Rightarrow> rat \<Rightarrow> rat" where
  "fdiv x y = rnd (x / y)"

text \<open>A decimal literal of the source, such as \<open>7.60\<close>, denotes the nearest double.\<close>

definition float_lit :: "rat \<Rightarrow> rat" where
  "float_lit q = rnd q"

text \<open>\<open>float(i)\<close>, the conversion that \<open>int * float\<close> applies to its integer operand.\<close>

definition float_of_int :: "int \<Rightarrow> rat" where
  "float_of_int i = rnd (of_int i)"

text \<open>
  \<open>round(x, 2)\<close> on a float: CPython rounds the exact value of \<open>x\<close> to two decimals
  (ties to even) and returns the double nearest to that decimal.
\<close>

definition round2 :: "rat \<Rightarrow> rat" where
  "round2 x = rnd (of_int (round_half_even (x * 100)) / 100)"

section \<open>Dates and times\<close>

text \<open>
  A naive \<open>datetime\<close> is its calendar fields, as in CPython. The timestamps that the
  Ledger stores with \<open>isoformat()\<close> and reads back with \<open>fromisoformat()\<close> are kept as
  the \<open>datetime\<close> itself (the round trip is the identity on naive datetimes).
\<close>

record datetime =
  year :: nat
  month :: nat
  day :: nat
  hour :: nat
  minute :: nat
  second :: nat
  microsecond :: nat

text \<open>
  What a clock reading looks like: \<open>datetime.now()\<close> is never before 1970, and the
  type ends with year 9999.
\<close>

definition valid_datetime :: "datetime \<Rightarrow> bool" where
  "valid_datetime t \<longleftrightarrow>
     1970 \<le> year t \<and> year t \<le> 9999 \<and> 1 \<le> month t \<and> month t \<le> 12 \<and>
     1 \<le> day t \<and> day t \<le> 31 \<and> hour t < 24 \<and> minute t < 60 \<and> second t < 60 \<and>
     microsecond t < 1000000"

definition zfill :: "nat \<Rightarrow> string \<Rightarrow> string" where
  "zfill w s = replicate (w - length s) CHR ''0'' @ s"

text \<open>\<open>strftime('%Y%m%d-%H%M%S')\<close>.\<close>

definition strftime :: "datetime \<Rightarrow> string" where
  "strftime t =
     zfill 4 (str_nat (year t)) @ zfill 2 (str_nat (month t)) @ zfill 2 (str_nat (day t))
     @ ''-'' @
     zfill 2 (str_nat (hour t)) @ zfill 2 (str_nat (minute t)) @ zfill 2 (str_nat (second t))"












section \<open>IP Allocator (lib/ip\_manager.py)\<close>

record ip_info =
  public_ip :: pyval
  deployment_id :: string
  ip_provider :: string
  ip_region :: string
  allocated_at :: datetime
  ip_status :: string
  released_at :: "datetime option"
  avoid_reason :: "string option"

record ip_registry =
  elastic_ips :: "(string \<times> ip_info) list"
  server_ips :: pydict
  client_subnets :: "(string \<times> string) list"
  reg_last_updated :: datetime

text \<open>\<open>save_ip_registry\<close> stamps the document and rewrites the file in full.\<close>

definition save_ip_registry :: "datetime \<Rightarrow> ip_registry \<Rightarrow> ip_registry" where
  "save_ip_registry now reg = reg\<lparr>reg_last_updated := now\<rparr>"

definition register_deployment_ip ::
  "ip_registry \<Rightarrow> string \<Rightarrow> string \<Rightarrow> string \<Rightarrow> pyval \<Rightarrow> datetime \<Rightarrow> ip_registry" where
  "register_deployment_ip reg did prov reg_name ip now =
     save_ip_registry now
       (reg\<lparr>elastic_ips :=
          AList.update (prov @ ''-'' @ reg_name @ ''-'' @ did)
            \<lparr>public_ip = ip, deployment_id = did, ip_provider = prov, ip_region = reg_name,
             allocated_at = now, ip_status = ''active'', released_at = None,
             avoid_reason = None\<rparr>
            (elastic_ips reg)\<rparr>)"



definition check_ip_conflicts :: "ip_registry \<Rightarrow> string \<Rightarrow> string \<Rightarrow> pyval list" where
  "check_ip_conflicts reg prov reg_name =
     map public_ip
       (filter (\<lambda>info. ip_provider info = prov \<and> ip_region info = reg_name
                       \<and> ip_status info = ''active'')
          (map snd (elastic_ips reg)))"


text \<open>
  \<open>generate_client_subnet\<close>. The candidate is the f-string
  \<open>10.{subnet_base}.{subnet_second}.0/24\<close>; the \<open>while\<close> loop re-derives
  \<open>subnet_base\<close> as \<open>(subnet_base + 1) % 200 + 10\<close> for as long as the candidate is among
  the values of \<open>registry["client_subnets"]\<close>. The loop has no bound in the source, so
  it is a partial function: not returning is the value \<open>None\<close>. \<open>timestamp\<close> is
  \<open>int(time.time())\<close>.
\<close>

definition subnet_str :: "int \<Rightarrow> int \<Rightarrow> string" where
  "subnet_str subnet_base subnet_second =
     ''10.'' @ str_int subnet_base @ ''.'' @ str_int subnet_second @ ''.0/24''"

partial_function (option) probe_subnet :: "string list \<Rightarrow> int \<Rightarrow> int \<Rightarrow> string option" where
  "probe_subnet used subnet_base subnet_second =
     (if subnet_str subnet_base subnet_second \<in> set used
      then probe_subnet used ((subnet_base + 1) mod 200 + 10) subnet_second
      else Some (subnet_str subnet_base subnet_second))"

definition generate_client_subnet ::
  "ip_registry \<Rightarrow> string \<Rightarrow> int \<Rightarrow> datetime \<Rightarrow> (string \<times> ip_registry) option" where
  "generate_client_subnet reg did timestamp now =
     (let subnet_base = timestamp mod 200 + 10;
          subnet_second = (timestamp div 200) mod 255
      in case probe_subnet (map snd (client_subnets reg)) subnet_base subnet_second of
           None \<Rightarrow> None
         | Some subnet \<Rightarrow>
             Some (subnet,
                   save_ip_registry now
                     (reg\<lparr>client_subnets := AList.update did subnet (client_subnets reg)\<rparr>)))"

section \<open>Deployment Ledger (lib/deployment\_tracker.py)\<close>

record client =
  client_name :: pyval
  client_ip_address :: pyval
  client_created_at :: datetime
  client_config_file :: pyval
  client_active :: bool

record cost =
  monthly :: rat
  yearly :: rat
  daily :: rat
  currency :: string

record deployment =
  dep_id :: string
  provider :: string
  region :: string
  created_at :: datetime
  status :: string
  resources :: pydict
  config :: pydict
  tags :: "(string \<times> string) list"
  cost_estimate :: cost
  clients :: "client list"
  destroyed_at :: "datetime option"
  last_modified :: "datetime option"

datatype meta_val = MTime datetime | MStr string

text \<open>\<open>inventory["deployments"]\<close> is \<open>provider \<rightarrow> region \<rightarrow> [deployment]\<close>.\<close>

type_synonym ledger = "(string \<times> (string \<times> deployment list) list) list"

record inventory =
  deployments :: ledger
  metadata :: "(string \<times> meta_val) list"

text \<open>
  The tracker object: the inventory document and the IP Allocator it owns. Every mutating
  method ends with \<open>save_inventory\<close> / \<open>save_ip_registry\<close>, which rewrite the whole
  document, so the same record stands for the object and for what is on disk.
\<close>

record tracker =
  inventory :: inventory
  ip_manager :: ip_registry

definition save_inventory :: "datetime \<Rightarrow> inventory \<Rightarrow> inventory" where
  "save_inventory now doc =
     doc\<lparr>metadata := AList.update ''last_updated'' (MTime now) (metadata doc)\<rparr>"

subsection \<open>\<open>_estimate_cost\<close>\<close>

definition instance_pricing :: "(string \<times> (string \<times> rat) list) list" where
  "instance_pricing =
     [(''aws'',
        [(''t3.nano'', float_lit (380 / 100)), (''t3.micro'', float_lit (760 / 100)),
         (''t3.small'', float_lit (1520 / 100)), (''t3.medium'', float_lit (3040 / 100)),
         (''t3.large'', float_lit (6080 / 100)), (''t2.micro'', float_lit (850 / 100)),
         (''t2.small'', float_lit (1680 / 100)), (''t2.medium'', float_lit (3370 / 100))]),
      (''azure'',
        [(''Standard_B1s'', float_lit (380 / 100)), (''Standard_B1ms'', float_lit (760 / 100)),
         (''Standard_B2s'', float_lit (1520 / 100)), (''Standard_B2ms'', float_lit (3040 / 100)),
         (''Standard_B4ms'', float_lit (6080 / 100)),
         (''Standard_D2s_v3'', float_lit (7000 / 100))]),
      (''digitalocean'',
        [(''s-1vcpu-1gb'', float_lit (600 / 100)), (''s-1vcpu-2gb'', float_lit (1200 / 100)),
         (''s-2vcpu-2gb'', float_lit (1800 / 100)), (''s-2vcpu-4gb'', float_lit (2400 / 100)),
         (''s-4vcpu-8gb'', float_lit (4800 / 100))]),
      (''hetzner'',
        [(''cx11'', float_lit (360 / 100)), (''cx21'', float_lit (640 / 100)),
         (''cx31'', float_lit (1160 / 100)), (''cx41'', float_lit (2200 / 100)),
         (''cx51'', float_lit (4300 / 100))])]"

text \<open>\<open>additional_costs\<close>: per provider, the \<open>ip\<close> and \<open>storage_per_gb\<close> rates.\<close>

definition additional_costs :: "(string \<times> rat \<times> rat) list" where
  "additional_costs =
     [(''aws'', float_lit (360 / 100), float_lit (10 / 100)),
      (''azure'', float_lit (360 / 100), float_lit (115 / 1000)),
      (''digitalocean'', 0, float_lit (10 / 100)),
      (''hetzner'', 0, float_lit (5 / 100))]"

definition default_costs :: "(string \<times> rat) list" where
  "default_costs =
     [(''aws'', float_lit (760 / 100)), (''azure'', float_lit (760 / 100)),
      (''digitalocean'', float_lit (600 / 100)), (''hetzner'', float_lit (360 / 100))]"

text \<open>\<open>additional_costs.get(provider, {}).get("ip", 3.60)\<close> and the storage rate.\<close>

definition ip_rate :: "string \<Rightarrow> rat" where
  "ip_rate prov =
     (case map_of additional_costs prov of None \<Rightarrow> float_lit (360 / 100) | Some (i, s) \<Rightarrow> i)"

definition storage_rate :: "string \<Rightarrow> rat" where
  "storage_rate prov =
     (case map_of additional_costs prov of None \<Rightarrow> float_lit (10 / 100) | Some (i, s) \<Rightarrow> s)"

text \<open>\<open>min(values)\<close> of a non-empty price table.\<close>

definition min_price :: "(string \<times> rat) list \<Rightarrow> rat" where
  "min_price tbl = fold min (map snd (tl tbl)) (snd (hd tbl))"

text \<open>
  The instance part of the estimate. \<open>instance_type in instance_pricing[provider]\<close>
  hashes the value: a list or a dictionary raises \<open>TypeError\<close>, any other non-string
  is simply not a key of the table.
\<close>

definition instance_cost :: "string \<Rightarrow> pydict option \<Rightarrow> error + rat" where
  "instance_cost prov cfg =
     (let instance_type =
            (case cfg of
               None \<Rightarrow> VNone
             | Some c \<Rightarrow> if c \<noteq> [] \<and> dict_has c ''instance_type''
                         then dict_get c ''instance_type'' else VNone)
      in case (if truthy instance_type then map_of instance_pricing prov else None) of
           Some tbl \<Rightarrow>
             (case instance_type of
                VStr s \<Rightarrow> (case map_of tbl s of Some p \<Rightarrow> Inr p | None \<Rightarrow> Inr (min_price tbl))
              | VList xs \<Rightarrow> Inl TypeError
              | VDict kvs \<Rightarrow> Inl TypeError
              | _ \<Rightarrow> Inr (min_price tbl))
         | None \<Rightarrow>
             (case map_of default_costs prov of
                Some p \<Rightarrow> Inr p | None \<Rightarrow> Inr (float_lit (1000 / 100))))"

text \<open>\<open>storage_gb * rate\<close>: numbers multiply, anything else raises \<open>TypeError\<close>.\<close>

definition storage_cost :: "pyval \<Rightarrow> rat \<Rightarrow> error + rat" where
  "storage_cost storage_gb rate =
     (case storage_gb of
        VInt i \<Rightarrow> Inr (fmul (float_of_int i) rate)
      | VBool b \<Rightarrow> Inr (fmul (if b then 1 else 0) rate)
      | VFloat x \<Rightarrow> Inr (fmul x rate)
      | _ \<Rightarrow> Inl TypeError)"

definition estimate_cost :: "string \<Rightarrow> pydict \<Rightarrow> pydict option \<Rightarrow> error + cost" where
  "estimate_cost prov res cfg =
     (case instance_cost prov cfg of
        Inl e \<Rightarrow> Inl e
      | Inr base \<Rightarrow>
          let with_ip = (if truthy (dict_get res ''public_ip'') then fadd base (ip_rate prov)
                         else base);
              storage_gb = (case map_of res ''storage_gb'' of None \<Rightarrow> VInt 20 | Some v \<Rightarrow> v)
          in case storage_cost storage_gb (storage_rate prov) of
               Inl e \<Rightarrow> Inl e
             | Inr sc \<Rightarrow>
                 let monthly_cost = fadd with_ip sc
                 in Inr \<lparr>monthly = round2 monthly_cost,
                         yearly = round2 (fmul monthly_cost 12),
                         daily = round2 (fdiv monthly_cost 30),
                         currency = ''USD''\<rparr>)"

subsection \<open>Ledger operations\<close>

text \<open>
  The three statements that store the record: create the provider's dictionary and the
  region's list when missing, then append.
\<close>

definition get_deployments_by_region :: "tracker \<Rightarrow> string \<Rightarrow> string \<Rightarrow> deployment list" where
  "get_deployments_by_region t prov reg_name =
     (case map_of (deployments (inventory t)) prov of
        None \<Rightarrow> []
      | Some regions \<Rightarrow> (case map_of regions reg_name of None \<Rightarrow> [] | Some ds \<Rightarrow> ds))"

definition store_deployment :: "string \<Rightarrow> string \<Rightarrow> deployment \<Rightarrow> ledger \<Rightarrow> ledger" where
  "store_deployment prov reg_name d led =
     (let regions = (case map_of led prov of None \<Rightarrow> [] | Some rs \<Rightarrow> rs);
          ds = (case map_of regions reg_name of None \<Rightarrow> [] | Some l \<Rightarrow> l)
      in AList.update prov (AList.update reg_name (ds @ [d]) regions) led)"

text \<open>
  \<open>add_deployment\<close>. The conflict check only logs a warning. The cost estimate is
  computed while the record is built, before anything is stored, so an exception there
  leaves the tracker as it was. One clock reading \<open>now\<close> stands for the
  \<open>datetime.now()\<close> calls of one \<open>add_deployment\<close>.
\<close>

definition add_deployment ::
  "tracker \<Rightarrow> string \<Rightarrow> string \<Rightarrow> string \<Rightarrow> pydict \<Rightarrow> pydict option \<Rightarrow> datetime
   \<Rightarrow> error + (string \<times> tracker)" where
  "add_deployment t did prov reg_name res cfg now =
     (let deployment_id =
            (if did = [] then prov @ ''-'' @ reg_name @ ''-'' @ strftime now else did)
      in case estimate_cost prov res cfg of
           Inl e \<Rightarrow> Inl e
         | Inr c \<Rightarrow>
             let deployment_record =
                   \<lparr>dep_id = deployment_id, provider = prov, region = reg_name,
                    created_at = now, status = ''active'', resources = res,
                    config = (case cfg of None \<Rightarrow> [] | Some cf \<Rightarrow> cf),
                    tags = [(''managed_by'', ''proxygen''), (''provider'', prov),
                            (''region'', reg_name)],
                    cost_estimate = c, clients = [], destroyed_at = None,
                    last_modified = None\<rparr>;
                 ipm = (if dict_has res ''public_ip''
                        then register_deployment_ip (ip_manager t) deployment_id prov reg_name
                               (dict_get res ''public_ip'') now
                        else ip_manager t);
                 doc = inventory t
             in Inr (deployment_id,
                     \<lparr>inventory =
                        save_inventory now
                          (doc\<lparr>deployments :=
                             store_deployment prov reg_name deployment_record (deployments doc)\<rparr>),
                      ip_manager = ipm\<rparr>))"

definition ledger_records :: "ledger \<Rightarrow> deployment list" where
  "ledger_records led = concat (map (\<lambda>(prov, regions). concat (map snd regions)) led)"

definition list_all_deployments :: "tracker \<Rightarrow> deployment list" where
  "list_all_deployments t = ledger_records (deployments (inventory t))"


definition get_active_deployments :: "tracker \<Rightarrow> deployment list" where
  "get_active_deployments t = filter (\<lambda>d. status d = ''active'') (list_all_deployments t)"











subsection \<open>Runs of Ledger operations\<close>




section \<open>Loading the stores\<close>

text \<open>
  A store is one JSON file: missing, present but not parseable, or a document.
\<close>

datatype 'a json_file = Missing | Corrupt | Doc 'a

record disk =
  ip_registry_file :: "ip_registry json_file"
  inventory_file :: "inventory json_file"
  inventory_backup :: "inventory json_file"

text \<open>
  \<open>IPManager.load_ip_registry\<close>: \<open>json.load\<close> is not guarded, so a file that does
  not parse raises \<open>JSONDecodeError\<close>. A missing file is created with the empty registry.
\<close>

definition load_ip_registry :: "disk \<Rightarrow> datetime \<Rightarrow> error + (ip_registry \<times> disk)" where
  "load_ip_registry dk now =
     (case ip_registry_file dk of
        Doc r \<Rightarrow> Inr (r, dk)
      | Corrupt \<Rightarrow> Inl JSONDecodeError
      | Missing \<Rightarrow>
          let r = save_ip_registry now
                    \<lparr>elastic_ips = [], server_ips = [], client_subnets = [],
                     reg_last_updated = now\<rparr>
          in Inr (r, dk\<lparr>ip_registry_file := Doc r\<rparr>))"

text \<open>Writing the inventory file: the previous file, if any, is copied to the backup.\<close>

definition write_inventory :: "inventory \<Rightarrow> disk \<Rightarrow> disk" where
  "write_inventory doc dk =
     dk\<lparr>inventory_backup :=
          (if inventory_file dk = Missing then inventory_backup dk else inventory_file dk),
        inventory_file := Doc doc\<rparr>"

text \<open>
  \<open>DeploymentTracker.load_inventory\<close>: here \<open>JSONDecodeError\<close> is caught, a warning
  is logged, and the tracker starts from \<open>{"deployments": {}, "metadata": {}}\<close>.
\<close>

definition load_inventory :: "disk \<Rightarrow> datetime \<Rightarrow> inventory \<times> disk" where
  "load_inventory dk now =
     (case inventory_file dk of
        Doc doc \<Rightarrow> (doc, dk)
      | Corrupt \<Rightarrow> (\<lparr>deployments = [], metadata = []\<rparr>, dk)
      | Missing \<Rightarrow>
          let doc = save_inventory now
                      \<lparr>deployments = [],
                       metadata = [(''created_at'', MTime now), (''last_updated'', MTime now),
                                   (''version'', MStr ''1.0'')]\<rparr>
          in (doc, write_inventory doc dk))"

text \<open>
  \<open>DeploymentTracker.__init__\<close>: \<open>self.ip_manager = IPManager(base_dir)\<close>, whose
  constructor loads the registry, then \<open>self.load_inventory()\<close>.
\<close>

definition DeploymentTracker_init :: "disk \<Rightarrow> datetime \<Rightarrow> error + (tracker \<times> disk)" where
  "DeploymentTracker_init dk now =
     (case load_ip_registry dk now of
        Inl e \<Rightarrow> Inl e
      | Inr (reg, dk1) \<Rightarrow>
          (case load_inventory dk1 now of
             (doc, dk2) \<Rightarrow> Inr (\<lparr>inventory = doc, ip_manager = reg\<rparr>, dk2)))"

section \<open>Resource Discovery Bridge (lib/cloud\_discovery.py)\<close>











section \<open>Provisioning State Machine (proxygen.py)\<close>

subsection \<open>The post-apply validation\<close>

text \<open>
  What \<open>runner.run\<close> can do: raise, or return the completed process. For the
  \<open>terraform output -json\<close> call the standard output is given as \<open>json.loads\<close> sees
  it: \<open>None\<close> when it does not parse, the parsed value otherwise.
\<close>

datatype run_result = Raised | Completed int "pyval option"

record validation_env =
  state_exists :: bool
  state_size :: nat
  init_run :: run_result
  output_run :: run_result

text \<open>
  The loop over \<open>required_outputs\<close>. When \<open>outputs\<close> is not a dictionary, either
  \<open>output not in outputs\<close> holds or \<open>outputs[output]\<close> raises, and when the entry is
  not a dictionary \<open>.get\<close> raises; the enclosing \<open>except Exception\<close> returns
  \<open>False\<close> for every exception.
\<close>

fun check_required :: "pyval \<Rightarrow> string list \<Rightarrow> bool" where
  "check_required outputs [] = True"
| "check_required outputs (output # rest) =
     (case outputs of
        VDict kvs \<Rightarrow>
          (case map_of kvs output of
             None \<Rightarrow> False
           | Some (VDict entry) \<Rightarrow>
               if \<not> truthy (dict_get entry ''value'') then False
               else check_required outputs rest
           | Some _ \<Rightarrow> False)
      | _ \<Rightarrow> False)"

definition required_outputs :: "string list" where
  "required_outputs = [''public_ip'', ''private_key_path'']"

text \<open>An output is there when its entry is a dictionary with a truthy \<open>value\<close>.\<close>

definition output_present :: "pydict \<Rightarrow> string \<Rightarrow> bool" where
  "output_present outputs k =
     (case map_of outputs k of
        Some (VDict entry) \<Rightarrow> truthy (dict_get entry ''value'')
      | _ \<Rightarrow> False)"

definition validate_terraform_deployment :: "validation_env \<Rightarrow> bool" where
  "validate_terraform_deployment ve =
     (if \<not> state_exists ve then False
      else if state_size ve < 1024 then False
      else
        case init_run ve of
          Raised \<Rightarrow> False
        | Completed rc0 out0 \<Rightarrow>
            (case output_run ve of
               Raised \<Rightarrow> False
             | Completed returncode parsed \<Rightarrow>
                 if returncode \<noteq> 0 then False
                 else (case parsed of
                         None \<Rightarrow> False
                       | Some outputs \<Rightarrow> check_required outputs required_outputs)))"

subsection \<open>\<open>run_terraform\<close> with action \<open>apply\<close>\<close>

datatype tf_cmd = Init | Plan | Apply

text \<open>
  The external world of one \<open>run_terraform\<close> call: \<open>pre\<close> is what happens before
  the commands (the validators or a missing Terraform directory raise; a missing
  DigitalOcean or Hetzner token returns \<open>False\<close>), then whether each command runs
  without \<open>runner.run\<close> raising, and what the validation after \<open>apply\<close> sees.
\<close>

datatype pre_outcome = PreOk | PreRaises | PreFalse

record tf_env =
  pre :: pre_outcome
  init_runs :: bool
  plan_runs :: bool
  apply_runs :: bool
  validation :: validation_env

record log_entry =
  cmd_region_index :: nat
  cmd_state_file :: string
  cmd :: tf_cmd

definition cmd_runs :: "tf_env \<Rightarrow> tf_cmd \<Rightarrow> bool" where
  "cmd_runs e c = (case c of Init \<Rightarrow> init_runs e | Plan \<Rightarrow> plan_runs e | Apply \<Rightarrow> apply_runs e)"

text \<open>
  The loop over \<open>commands\<close>: in a dry run only the plan is executed. A command that
  raises, and a validation that fails after \<open>apply\<close>, clean the local artifacts up and
  raise \<open>TerraformError\<close>; the \<open>validate_input\<close> wrapper turns every exception that
  is not a \<open>ValidationError\<close> into one, and \<open>handle_error\<close> lets it through. The
  result comes with the commands that were executed.
\<close>

fun run_commands :: "tf_env \<Rightarrow> bool \<Rightarrow> tf_cmd list \<Rightarrow> (error + bool) \<times> tf_cmd list" where
  "run_commands e dry_run [] = (Inr True, [])"
| "run_commands e dry_run (c # rest) =
     (if \<not> dry_run \<or> c = Plan then
        (if \<not> cmd_runs e c then (Inl ValidationError, [c])
         else if c = Apply \<and> \<not> dry_run \<and> \<not> validate_terraform_deployment (validation e)
         then (Inl ValidationError, [c])
         else (case run_commands e dry_run rest of (r, executed) \<Rightarrow> (r, c # executed)))
      else run_commands e dry_run rest)"

definition run_terraform ::
  "tf_env \<Rightarrow> string \<Rightarrow> string \<Rightarrow> nat \<Rightarrow> bool \<Rightarrow> string \<Rightarrow> (error + bool) \<times> log_entry list" where
  "run_terraform e prov reg_name i dry_run deployment_uid =
     (case pre e of
        PreRaises \<Rightarrow> (Inl ValidationError, [])
      | PreFalse \<Rightarrow> (Inr False, [])
      | PreOk \<Rightarrow>
          (case run_commands e dry_run ([Init, Plan] @ (if \<not> dry_run then [Apply] else [])) of
             (r, executed) \<Rightarrow>
               (r, map (\<lambda>c. \<lparr>cmd_region_index = i,
                               cmd_state_file = prov @ ''-'' @ reg_name @ ''-'' @ deployment_uid
                                                @ ''.tfstate'',
                               cmd = c\<rparr>) executed)))"

subsection \<open>\<open>get_terraform_output\<close>\<close>

text \<open>
  \<open>outputs.get(k, {}).get("value")\<close>; every failure (no state file, the command, the
  parse, a value that has no \<open>.get\<close>) leaves as \<open>TerraformError\<close>.
\<close>

definition output_value :: "pydict \<Rightarrow> string \<Rightarrow> error + pyval" where
  "output_value outputs k =
     (case map_of outputs k of
        None \<Rightarrow> Inr VNone
      | Some (VDict entry) \<Rightarrow> Inr (dict_get entry ''value'')
      | Some _ \<Rightarrow> Inl TerraformError)"

definition get_terraform_output :: "pyval option \<Rightarrow> error + pydict" where
  "get_terraform_output parsed =
     (case parsed of
        Some (VDict outputs) \<Rightarrow>
          (case output_value outputs ''public_ip'' of
             Inl e \<Rightarrow> Inl e
           | Inr ip \<Rightarrow>
               (case output_value outputs ''private_key_path'' of
                  Inl e \<Rightarrow> Inl e
                | Inr kp \<Rightarrow>
                    (case output_value outputs ''instance_id'' of
                       Inl e \<Rightarrow> Inl e
                     | Inr iid \<Rightarrow>
                         Inr [(''public_ip'', ip), (''private_key_path'', kp),
                              (''instance_id'', iid)])))
      | _ \<Rightarrow> Inl TerraformError)"

subsection \<open>\<open>deploy\<close>\<close>

text \<open>
  The external world of one region of a \<open>deploy\<close> call, and of the call: the answer
  to the alpha-provider prompt (after \<open>.lower().strip()\<close>), the region table and server
  settings of the configuration, and the token \<open>secrets.token_hex(3)\<close> returns.
  \<open>registered_at\<close> is the clock reading when the region is entered in the Ledger:
  \<open>deploy\<close> formats it into the id and \<open>add_deployment\<close> stamps the record with it.
\<close>

record region_env =
  tf :: tf_env
  outputs_json :: "pyval option"
  configure :: "error + bool"
  registered_at :: datetime

record deploy_env =
  response :: string
  valid_regions :: "string list"
  wireguard_port :: pyval
  server_subnet :: pyval
  token_hex :: string
  region_envs :: "nat \<Rightarrow> region_env"

definition default_types :: "string \<Rightarrow> string" where
  "default_types prov =
     (if prov = ''aws'' then ''t3.nano''
      else if prov = ''azure'' then ''Standard_B1s''
      else if prov = ''digitalocean'' then ''s-1vcpu-1gb''
      else ''cx11'')"

text \<open>
  The loop over the regions, from region number \<open>i\<close> on. \<open>server_info\<close> always has
  its three keys, so \<open>if not dry_run and server_info\<close> tests \<open>dry_run\<close> alone. The
  result is what \<open>deploy\<close> returns or raises, the tracker, and the Terraform commands
  that were executed.
\<close>

fun deploy_regions ::
  "tracker \<Rightarrow> string \<Rightarrow> nat \<Rightarrow> string list \<Rightarrow> bool \<Rightarrow> string \<Rightarrow> deploy_env
   \<Rightarrow> (error + bool) \<times> tracker \<times> log_entry list" where
  "deploy_regions t prov i [] dry_run instance_type env = (Inr True, t, [])"
| "deploy_regions t prov i (reg_name # rest) dry_run instance_type env =
     (let renv = region_envs env i
      in case run_terraform (tf renv) prov reg_name i dry_run (token_hex env) of
           (Inl e, executed) \<Rightarrow> (Inl e, t, executed)
         | (Inr False, executed) \<Rightarrow> (Inr False, t, executed)
         | (Inr True, executed) \<Rightarrow>
             (case get_terraform_output (outputs_json renv) of
                Inl e \<Rightarrow> (Inl e, t, executed)
              | Inr server_info \<Rightarrow>
                  (case (if \<not> dry_run \<and> server_info \<noteq> [] then configure renv else Inr True) of
                     Inl e \<Rightarrow> (Inl e, t, executed)
                   | Inr False \<Rightarrow> (Inr False, t, executed)
                   | Inr True \<Rightarrow>
                       (case (if \<not> dry_run \<and> server_info \<noteq> [] then
                                map_sum id snd
                                  (add_deployment t
                                     (prov @ ''-'' @ reg_name @ ''-'' @ strftime (registered_at renv))
                                     prov reg_name server_info
                                     (Some [(''instance_type'', VStr instance_type),
                                            (''wireguard_port'', wireguard_port env),
                                            (''subnet'', server_subnet env)])
                                     (registered_at renv))
                              else Inr t) of
                          Inl e \<Rightarrow> (Inl e, t, executed)
                        | Inr t' \<Rightarrow>
                            (case deploy_regions t' prov (Suc i) rest dry_run instance_type env of
                               (r, t'', later) \<Rightarrow> (r, t'', executed @ later))))))"

definition deploy ::
  "tracker \<Rightarrow> string \<Rightarrow> string list \<Rightarrow> bool \<Rightarrow> string option \<Rightarrow> deploy_env
   \<Rightarrow> (error + bool) \<times> tracker \<times> log_entry list" where
  "deploy t prov regions dry_run instance_type env =
     (if prov \<notin> set [''aws'', ''azure'', ''digitalocean'', ''hetzner''] then (Inr False, t, [])
      else if prov \<in> set [''hetzner'', ''digitalocean'']
              \<and> response env \<notin> set [''yes'', ''y''] then (Inr False, t, [])
      else if \<exists>r \<in> set regions. r \<notin> set (valid_regions env) then (Inr False, t, [])
      else deploy_regions t prov 0 regions dry_run
             (case instance_type of None \<Rightarrow> default_types prov | Some ty \<Rightarrow> ty) env)"

section \<open>Cost Model (lib/cost\_estimator.py)\<close>

text \<open>
  The pricing table of \<open>CostEstimator.__init__\<close>, per provider: hourly instance prices,
  the rate of the first key of \<open>storage\<close>, the hourly IP price and the regional
  multipliers. The bandwidth rates are used by name in \<open>calculate_bandwidth_cost\<close>.
\<close>

record provider_pricing =
  instances :: "(string \<times> rat) list"
  storage_first :: rat
  ip_hourly :: rat
  region_modifiers :: "(string \<times> rat) list"

definition pricing :: "(string \<times> provider_pricing) list" where
  "pricing =
     [(''aws'',
        \<lparr>instances =
           [(''t3.micro'', float_lit (104 / 10000)), (''t3.small'', float_lit (208 / 10000)),
            (''t3.medium'', float_lit (416 / 10000)), (''t3.large'', float_lit (832 / 10000)),
            (''t3.xlarge'', float_lit (1664 / 10000)), (''t4g.micro'', float_lit (84 / 10000)),
            (''t4g.small'', float_lit (168 / 10000)), (''t4g.medium'', float_lit (336 / 10000))],
         storage_first = float_lit (8 / 100),
         ip_hourly = float_lit (5 / 1000),
         region_modifiers =
           [(''us-east-1'', float_lit 1), (''us-west-2'', float_lit 1),
            (''eu-west-1'', float_lit (11 / 10)), (''eu-central-1'', float_lit (115 / 100)),
            (''ap-southeast-1'', float_lit (12 / 10)), (''ap-northeast-1'', float_lit (125 / 100)),
            (''sa-east-1'', float_lit (14 / 10))]\<rparr>),
      (''azure'',
        \<lparr>instances =
           [(''Standard_B1s'', float_lit (104 / 10000)), (''Standard_B1ms'', float_lit (207 / 10000)),
            (''Standard_B2s'', float_lit (416 / 10000)), (''Standard_B2ms'', float_lit (832 / 10000)),
            (''Standard_B4ms'', float_lit (1664 / 10000)),
            (''Standard_D2s_v5'', float_lit (96 / 1000)),
            (''Standard_D4s_v5'', float_lit (192 / 1000))],
         storage_first = float_lit (12 / 100),
         ip_hourly = float_lit (4 / 1000),
         region_modifiers =
           [(''eastus'', float_lit 1), (''westus2'', float_lit 1),
            (''westeurope'', float_lit (11 / 10)), (''northeurope'', float_lit (108 / 100)),
            (''southeastasia'', float_lit (115 / 100)), (''japaneast'', float_lit (125 / 100)),
            (''brazilsouth'', float_lit (135 / 100))]\<rparr>),
      (''digitalocean'',
        \<lparr>instances =
           [(''s-1vcpu-1gb'', float_lit (833 / 100000)), (''s-1vcpu-2gb'', float_lit (1667 / 100000)),
            (''s-2vcpu-2gb'', float_lit (2500 / 100000)), (''s-2vcpu-4gb'', float_lit (3333 / 100000)),
            (''s-4vcpu-8gb'', float_lit (6667 / 100000)), (''c-2'', float_lit (4167 / 100000)),
            (''c-4'', float_lit (8333 / 100000))],
         storage_first = float_lit (10 / 100),
         ip_hourly = float_lit 0,
         region_modifiers =
           map (\<lambda>r. (r, float_lit 1))
             [''nyc1'', ''nyc3'', ''sfo1'', ''sfo2'', ''sfo3'', ''ams2'', ''ams3'', ''sgp1'',
              ''lon1'', ''fra1'', ''tor1'', ''blr1'', ''syd1'']\<rparr>),
      (''hetzner'',
        \<lparr>instances =
           [(''cx11'', float_lit (500 / 100000)), (''cx21'', float_lit (889 / 100000)),
            (''cx31'', float_lit (1611 / 100000)), (''cx41'', float_lit (3056 / 100000)),
            (''cx51'', float_lit (5958 / 100000)), (''cpx11'', float_lit (639 / 100000)),
            (''cpx21'', float_lit (1139 / 100000)), (''cpx31'', float_lit (2083 / 100000))],
         storage_first = float_lit (5 / 100),
         ip_hourly = float_lit 0,
         region_modifiers =
           [(''fsn1'', float_lit 1), (''nbg1'', float_lit 1), (''hel1'', float_lit 1),
            (''ash'', float_lit (11 / 10)), (''hil'', float_lit (11 / 10))]\<rparr>)]"

text \<open>
  \<open>calculate_bandwidth_cost\<close>, tier by tier as the source writes it. \<open>bandwidth_gb\<close>
  is a float; an integer argument below \<open>2^53\<close> gives the same values, since
  \<open>int * float\<close> converts the integer first. For Azure the source has no branch above
  51205 GB: the cost stays \<open>0.0\<close>. For a provider that is not in the table the
  first statement, \<open>self.pricing[provider]\<close>, raises \<open>KeyError\<close>, so the final
  \<open>else\<close> of the chain is never reached.
\<close>

definition calculate_bandwidth_cost :: "string \<Rightarrow> rat \<Rightarrow> error + rat" where
  "calculate_bandwidth_cost prov bandwidth_gb =
     (case map_of pricing prov of
        None \<Rightarrow> Inl (KeyError prov)
      | Some pp \<Rightarrow>
          Inr
          (if prov = ''aws'' then
            (if bandwidth_gb \<le> 10240 then fmul bandwidth_gb (float_lit (9 / 100))
             else if bandwidth_gb \<le> 51200 then
               fadd (fmul 10240 (float_lit (9 / 100)))
                    (fmul (fsub bandwidth_gb 10240) (float_lit (85 / 1000)))
             else if bandwidth_gb \<le> 153600 then
               fadd (fadd (fmul 10240 (float_lit (9 / 100))) (fmul 40960 (float_lit (85 / 1000))))
                    (fmul (fsub bandwidth_gb 51200) (float_lit (7 / 100)))
             else
               fadd (fadd (fadd (fmul 10240 (float_lit (9 / 100)))
                                (fmul 40960 (float_lit (85 / 1000))))
                          (fmul 102400 (float_lit (7 / 100))))
                    (fmul (fsub bandwidth_gb 153600) (float_lit (5 / 100))))
           else if prov = ''azure'' then
            (if bandwidth_gb \<le> 5 then 0
             else if bandwidth_gb \<le> 10245 then fmul (fsub bandwidth_gb 5) (float_lit (87 / 1000))
             else if bandwidth_gb \<le> 51205 then
               fadd (fmul 10240 (float_lit (87 / 1000)))
                    (fmul (fsub bandwidth_gb 10245) (float_lit (83 / 1000)))
             else 0)
           else if prov = ''digitalocean'' then
            (if bandwidth_gb \<le> 1000 then 0
             else fmul (fsub bandwidth_gb 1000) (float_lit (1 / 100)))
           else if prov = ''hetzner'' then
            (if bandwidth_gb \<le> 20480 then 0
             else fmul (fmul (fdiv (fsub bandwidth_gb 20480) 1024) 1000) (float_lit (1 / 1000)))
           else 0))"

record breakdown =
  bd_instance :: rat
  bd_ip_address :: rat
  bd_bandwidth :: rat
  bd_storage :: rat

record estimate =
  est_provider :: string
  est_region :: string
  est_instance_type :: string
  est_breakdown :: breakdown
  total_monthly :: rat
  total_yearly :: rat
  est_currency :: string
  estimated_at :: datetime

definition estimate_monthly_cost ::
  "string \<Rightarrow> string \<Rightarrow> string \<Rightarrow> rat \<Rightarrow> rat \<Rightarrow> rat \<Rightarrow> datetime \<Rightarrow> error + estimate" where
  "estimate_monthly_cost prov instance_type reg_name bandwidth_gb storage_gb hours_per_month now =
     (case map_of pricing prov of
        None \<Rightarrow> Inl ValueError
      | Some pp \<Rightarrow>
          (case map_of (instances pp) instance_type of
             None \<Rightarrow> Inl ValueError
           | Some hourly \<Rightarrow>
               let region_modifier =
                     (case map_of (region_modifiers pp) reg_name of
                        None \<Rightarrow> float_lit 1 | Some m \<Rightarrow> m);
                   instance_hourly = fmul hourly region_modifier;
                   instance_cost = fmul instance_hourly hours_per_month;
                   ip_cost = fmul (ip_hourly pp) hours_per_month
               in case calculate_bandwidth_cost prov bandwidth_gb of
                    Inl e \<Rightarrow> Inl e
                  | Inr bandwidth_cost \<Rightarrow>
                      let storage_cost = fmul (storage_first pp) storage_gb;
                          total_cost =
                            fadd (fadd (fadd instance_cost ip_cost) bandwidth_cost) storage_cost
                      in Inr \<lparr>est_provider = prov, est_region = reg_name,
                              est_instance_type = instance_type,
                              est_breakdown =
                                \<lparr>bd_instance = round2 instance_cost,
                                 bd_ip_address = round2 ip_cost,
                                 bd_bandwidth = round2 bandwidth_cost,
                                 bd_storage = round2 storage_cost\<rparr>,
                              total_monthly = round2 total_cost,
                              total_yearly = round2 (fmul total_cost 12),
                              est_currency = ''USD'', estimated_at = now\<rparr>))"

section \<open>Identifier formats\<close>

text \<open>
  The regular expression \<open>\d{8}-\d{6}\<close> on a whole string, and
  \<open>^aws-us-east-1-\d{8}-\d{6}$\<close>.
\<close>

definition is_digit :: "char \<Rightarrow> bool" where
  "is_digit c \<longleftrightarrow> c \<in> set ''0123456789''"

definition matches_timestamp :: "string \<Rightarrow> bool" where
  "matches_timestamp s \<longleftrightarrow>
     length s = 15 \<and> list_all is_digit (take 8 s) \<and> s ! 8 = CHR ''-'' \<and>
     list_all is_digit (drop 9 s)"

definition matches_scenario_id :: "string \<Rightarrow> bool" where
  "matches_scenario_id s \<longleftrightarrow>
     take 14 s = ''aws-us-east-1-'' \<and> matches_timestamp (drop 14 s)"

text \<open>
  The format \<open>{provider}-{region}-{uid}\<close> with \<open>uid\<close> six hexadecimal characters, as
  \<open>secrets.token_hex(3)\<close> produces them.
\<close>

definition is_hex :: "char \<Rightarrow> bool" where
  "is_hex c \<longleftrightarrow> c \<in> set ''0123456789abcdef''"

definition has_uid_format :: "string \<Rightarrow> string \<Rightarrow> string \<Rightarrow> bool" where
  "has_uid_format prov reg_name s \<longleftrightarrow>
     (let prefix = prov @ ''-'' @ reg_name @ ''-''
      in take (length prefix) s = prefix \<and> length (drop (length prefix) s) = 6 \<and>
         list_all is_hex (drop (length prefix) s))"

section \<open>Concrete inputs\<close>

definition t_2023 :: datetime where
  "t_2023 = \<lparr>year = 2023, month = 11, day = 14, hour = 22, minute = 13, second = 20,
             microsecond = 0\<rparr>"

text \<open>A registry in which every one of the 200 candidates with second octet 85 is taken.\<close>

definition exhausted_registry :: ip_registry where
  "exhausted_registry =
     \<lparr>elastic_ips = [], server_ips = [],
      client_subnets = map (\<lambda>b. (''d'' @ str_nat b, subnet_str (int b) 85)) [10..<210],
      reg_last_updated = t_2023\<rparr>"

text \<open>Half a second after \<open>t_2023\<close>.\<close>

definition t_2023_later :: datetime where
  "t_2023_later = t_2023\<lparr>microsecond := 500000\<rparr>"

definition empty_registry :: ip_registry where
  "empty_registry =
     \<lparr>elastic_ips = [], server_ips = [], client_subnets = [], reg_last_updated = t_2023\<rparr>"

definition empty_tracker :: tracker where
  "empty_tracker =
     \<lparr>inventory = \<lparr>deployments = [], metadata = []\<rparr>, ip_manager = empty_registry\<rparr>"

text \<open>What an exception leaves behind: the tracker as it was.\<close>

definition tracker_after :: "tracker \<Rightarrow> error + (string \<times> tracker) \<Rightarrow> tracker" where
  "tracker_after t r = (case r of Inl e \<Rightarrow> t | Inr (i, t') \<Rightarrow> t')"

definition returned_id :: "error + (string \<times> tracker) \<Rightarrow> error + string" where
  "returned_id r = map_sum id fst r"

text \<open>The arguments of the scenario \<open>add("", "aws", "us-east-1", ...)\<close>.\<close>

definition scenario_resources :: pydict where
  "scenario_resources = [(''public_ip'', VStr ''1.2.3.4'')]"

definition scenario_config :: pydict where
  "scenario_config = [(''instance_type'', VStr ''t3.micro'')]"

definition first_add :: "error + (string \<times> tracker)" where
  "first_add =
     add_deployment empty_tracker [] ''aws'' ''us-east-1'' scenario_resources
       (Some scenario_config) t_2023"

definition second_add :: "error + (string \<times> tracker)" where
  "second_add =
     add_deployment (tracker_after empty_tracker first_add) [] ''aws'' ''us-east-1''
       scenario_resources (Some scenario_config) t_2023_later"

text \<open>Disks with one corrupted store each.\<close>

definition disk_corrupt_registry :: disk where
  "disk_corrupt_registry =
     \<lparr>ip_registry_file = Corrupt,
      inventory_file = Doc \<lparr>deployments = [], metadata = []\<rparr>,
      inventory_backup = Missing\<rparr>"

definition disk_corrupt_inventory :: disk where
  "disk_corrupt_inventory =
     \<lparr>ip_registry_file = Doc empty_registry, inventory_file = Corrupt,
      inventory_backup = Missing\<rparr>"

text \<open>
  A validation whose Terraform output has \<open>public_ip\<close> and \<open>private_key_path\<close> but
  no \<open>instance_id\<close>.
\<close>

definition outputs_without_instance_id :: pydict where
  "outputs_without_instance_id =
     [(''public_ip'', VDict [(''sensitive'', VBool False), (''type'', VStr ''string''),
                             (''value'', VStr ''1.2.3.4'')]),
      (''private_key_path'', VDict [(''sensitive'', VBool False), (''type'', VStr ''string''),
                                    (''value'', VStr ''/state/aws-us-east-1-a1b2c3.pem'')])]"

definition validation_without_instance_id :: validation_env where
  "validation_without_instance_id =
     \<lparr>state_exists = True, state_size = 4096, init_run = Completed 0 None,
      output_run = Completed 0 (Some (VDict outputs_without_instance_id))\<rparr>"









text \<open>
  A three-region deploy on AWS in which everything succeeds for the first region and the
  \<open>terraform apply\<close> command fails for the second.
\<close>

definition outputs_complete :: pydict where
  "outputs_complete =
     outputs_without_instance_id @
     [(''instance_id'', VDict [(''sensitive'', VBool False), (''type'', VStr ''string''),
                               (''value'', VStr ''i-0123456789abcdef0'')])]"

definition tf_succeeds :: tf_env where
  "tf_succeeds =
     \<lparr>pre = PreOk, init_runs = True, plan_runs = True, apply_runs = True,
      validation =
        \<lparr>state_exists = True, state_size = 4096, init_run = Completed 0 None,
         output_run = Completed 0 (Some (VDict outputs_complete))\<rparr>\<rparr>"

definition region_succeeds :: region_env where
  "region_succeeds =
     \<lparr>tf = tf_succeeds, outputs_json = Some (VDict outputs_complete),
      configure = Inr True, registered_at = t_2023\<rparr>"

definition region_apply_fails :: region_env where
  "region_apply_fails = region_succeeds\<lparr>tf := tf_succeeds\<lparr>apply_runs := False\<rparr>\<rparr>"

definition deploy_env_example :: deploy_env where
  "deploy_env_example =
     \<lparr>response = ''yes'',
      valid_regions = [''us-east-1'', ''us-west-2'', ''eu-west-1''],
      wireguard_port = VInt 51820, server_subnet = VStr ''10.0.0.0/24'',
      token_hex = ''a1b2c3'',
      region_envs = (\<lambda>i. if i = 0 then region_succeeds else region_apply_fails)\<rparr>"

definition deploy_example :: "(error + bool) \<times> tracker \<times> log_entry list" where
  "deploy_example =
     deploy empty_tracker ''aws'' [''us-east-1'', ''us-west-2'', ''eu-west-1''] False None
       deploy_env_example"



section \<open>Properties of the IP Allocator\<close>

lemma probe_subnet_exhausted_aux:
  assumes ret: "probe_subnet used b s = Some r"
  shows "(\<forall>c. 10 \<le> c \<and> c \<le> 209 \<longrightarrow> subnet_str c s \<in> set used) \<longrightarrow> \<not> (10 \<le> b \<and> b \<le> 209)"
proof (rule probe_subnet.raw_induct
    [where P = "\<lambda>used b s r. (\<forall>c. 10 \<le> c \<and> c \<le> 209 \<longrightarrow> subnet_str c s \<in> set used)
                    \<longrightarrow> \<not> (10 \<le> b \<and> b \<le> 209)", OF _ ret])
  fix probe :: "string list \<Rightarrow> int \<Rightarrow> int \<Rightarrow> string option"
  fix used b s r
  assume IH: "\<And>used b s r. probe used b s = Some r \<Longrightarrow>
      (\<forall>c. 10 \<le> c \<and> c \<le> 209 \<longrightarrow> subnet_str c s \<in> set used) \<longrightarrow> \<not> (10 \<le> b \<and> b \<le> 209)"
    and step: "(if subnet_str b s \<in> set used then probe used ((b + 1) mod 200 + 10) s
                else Some (subnet_str b s)) = Some r"
  show "(\<forall>c. 10 \<le> c \<and> c \<le> 209 \<longrightarrow> subnet_str c s \<in> set used) \<longrightarrow> \<not> (10 \<le> b \<and> b \<le> 209)"
  proof (intro impI notI)
    assume full: "\<forall>c. 10 \<le> c \<and> c \<le> 209 \<longrightarrow> subnet_str c s \<in> set used"
      and b: "10 \<le> b \<and> b \<le> 209"
    from full have "10 \<le> b \<and> b \<le> 209 \<longrightarrow> subnet_str b s \<in> set used" by (rule spec)
    from this b have taken: "subnet_str b s \<in> set used" by (rule mp)
    define c where "c = (b + 1) mod 200 + 10"
    from taken step have next_call: "probe used c s = Some r"
      unfolding c_def by simp
    have in_range: "10 \<le> c \<and> c \<le> 209"
      unfolding c_def using pos_mod_bound [of 200 "b + 1"] pos_mod_sign [of 200 "b + 1"] by simp
    from IH [OF next_call] full have "\<not> (10 \<le> c \<and> c \<le> 209)" by (rule mp)
    from this in_range show False by (rule notE)
  qed
qed

lemma probe_subnet_exhausted:
  assumes full: "\<forall>c. 10 \<le> c \<and> c \<le> 209 \<longrightarrow> subnet_str c s \<in> set used"
    and b: "10 \<le> b \<and> b \<le> 209"
  shows "probe_subnet used b s = None"
proof (cases "probe_subnet used b s")
  case None
  then show ?thesis .
next
  case (Some r)
  from probe_subnet_exhausted_aux [OF Some] full have "\<not> (10 \<le> b \<and> b \<le> 209)" by (rule mp)
  from this b show ?thesis by (rule notE)
qed

text \<open>
  The probe steps \<open>subnet_base\<close> by 11 within 10..209 and visits all 200 values, so
  the call returns whenever one candidate with the second octet of the timestamp is free.
\<close>

lemma subnet_str_10_85: "subnet_str 10 85 = ''10.10.85.0/24''"
  by (simp add: subnet_str_def str_int_def str_nat.simps digit_char_def)

lemma subnet_str_21_85: "subnet_str 21 85 = ''10.21.85.0/24''"
  by (simp add: subnet_str_def str_int_def str_nat.simps digit_char_def)

lemma generate_client_subnet_fresh:
  "map_option fst (generate_client_subnet empty_registry ''d1'' 1700000000 t_2023)
   = Some ''10.10.85.0/24''"
  by (simp add: generate_client_subnet_def empty_registry_def probe_subnet.simps
      subnet_str_10_85)

lemma generate_client_subnet_probes:
  "map_option fst
     (generate_client_subnet (empty_registry\<lparr>client_subnets := [(''d1'', ''10.10.85.0/24'')]\<rparr>)
        ''d2'' 1700000000 t_2023)
   = Some ''10.21.85.0/24''"
  by (simp add: generate_client_subnet_def empty_registry_def probe_subnet.simps
      subnet_str_10_85 subnet_str_21_85)

lemma probe_subnet_returns_later:
  "subnet_str (((\<lambda>b. (b + 1) mod 200 + 10) ^^ k) b) s \<notin> set used \<Longrightarrow>
   \<exists>r. probe_subnet used b s = Some r"
proof (induction k arbitrary: b)
  case 0
  then show ?case by (subst probe_subnet.simps) simp
next
  case (Suc k)
  show ?case
  proof (cases "subnet_str b s \<in> set used")
    case True
    from Suc.prems have "subnet_str (((\<lambda>b. (b + 1) mod 200 + 10) ^^ k) ((b + 1) mod 200 + 10)) s
        \<notin> set used"
      by (simp add: funpow_Suc_right del: funpow.simps)
    from Suc.IH [OF this] obtain r where "probe_subnet used ((b + 1) mod 200 + 10) s = Some r" ..
    with True have "probe_subnet used b s = Some r" by (subst probe_subnet.simps) simp
    then show ?thesis ..
  next
    case False
    then show ?thesis by (subst probe_subnet.simps) simp
  qed
qed

lemma probe_orbit:
  "((\<lambda>b. (b + 1) mod 200 + 10) ^^ k) b = (b - 10 + 11 * int k) mod 200 + 10"
  if "10 \<le> b" "b \<le> 209" for b :: int
proof (induction k)
  case 0
  from that show ?case by simp
next
  case (Suc k)
  have step: "(x mod 200 + 10 + 1) mod 200 = (x + 11) mod 200" for x :: int
  proof -
    have "x mod 200 + 10 + 1 = x mod 200 + 11" by simp
    then show ?thesis by (simp only: mod_add_left_eq)
  qed
  have "((\<lambda>b. (b + 1) mod 200 + 10) ^^ Suc k) b
      = (((\<lambda>b. (b + 1) mod 200 + 10) ^^ k) b + 1) mod 200 + 10"
    by simp
  also have "\<dots> = ((b - 10 + 11 * int k) mod 200 + 10 + 1) mod 200 + 10"
    by (simp only: Suc)
  also have "\<dots> = (b - 10 + 11 * int k + 11) mod 200 + 10"
    by (simp only: step)
  also have "b - 10 + 11 * int k + 11 = b - 10 + 11 * int (Suc k)"
    by simp
  finally show ?case .
qed

lemma probe_reaches:
  fixes b c :: int
  assumes "10 \<le> b" "b \<le> 209" "10 \<le> c" "c \<le> 209"
  shows "((\<lambda>b. (b + 1) mod 200 + 10) ^^ nat ((91 * (c - b)) mod 200)) b = c"
proof -
  have "(x + 11 * (y mod 200)) mod 200 = (x + 11 * y) mod 200" for x y :: int
  proof -
    have "(x + 11 * (y mod 200)) mod 200 = (x + (11 * (y mod 200)) mod 200) mod 200"
      by (simp only: mod_add_right_eq)
    also have "\<dots> = (x + (11 * y) mod 200) mod 200"
      by (simp only: mod_mult_right_eq)
    also have "\<dots> = (x + 11 * y) mod 200"
      by (simp only: mod_add_right_eq)
    finally show ?thesis .
  qed
  then have "(b - 10 + 11 * ((91 * (c - b)) mod 200)) mod 200 = (b - 10 + 11 * (91 * (c - b))) mod 200" .
  also have "b - 10 + 11 * (91 * (c - b)) = (c - 10) + 200 * (5 * (c - b))"
    by (simp add: algebra_simps)
  also have "((c - 10) + 200 * (5 * (c - b))) mod 200 = (c - 10) mod 200"
    by (simp only: mod_mult_self2)
  also from assms have "(c - 10) mod 200 = c - 10" by simp
  finally have "(b - 10 + 11 * ((91 * (c - b)) mod 200)) mod 200 + 10 = c" by simp
  then show ?thesis
    by (simp add: probe_orbit [OF assms(1,2)])
qed

lemma generate_client_subnet_returns:
  assumes "10 \<le> c" "c \<le> 209"
    and "subnet_str c ((timestamp div 200) mod 255) \<notin> set (map snd (client_subnets reg))"
  shows "generate_client_subnet reg did timestamp now \<noteq> None"
proof -
  let ?b = "timestamp mod 200 + 10"
  have b: "10 \<le> ?b" "?b \<le> 209"
    using pos_mod_bound [of 200 timestamp] pos_mod_sign [of 200 timestamp] by simp_all
  from assms(3) probe_reaches [OF b assms(1,2)]
  have "subnet_str (((\<lambda>b. (b + 1) mod 200 + 10) ^^ nat ((91 * (c - ?b)) mod 200)) ?b)
          ((timestamp div 200) mod 255) \<notin> set (map snd (client_subnets reg))"
    by simp
  from probe_subnet_returns_later [OF this] show ?thesis
    by (auto simp: generate_client_subnet_def Let_def)
qed


lemma exhausted_registry_full:
  "\<forall>c. 10 \<le> c \<and> c \<le> 209 \<longrightarrow> subnet_str c 85 \<in> set (map snd (client_subnets exhausted_registry))"
proof (intro allI impI)
  fix c :: int
  assume c: "10 \<le> c \<and> c \<le> 209"
  then have "nat c \<in> set [10..<210]" unfolding set_upt atLeastLessThan_iff by arith
  then have "subnet_str (int (nat c)) 85 \<in> (\<lambda>b. subnet_str (int b) 85) ` set [10..<210]"
    by (rule imageI)
  moreover from c have "int (nat c) = c" by simp
  ultimately show "subnet_str c 85 \<in> set (map snd (client_subnets exhausted_registry))"
    by (simp only: exhausted_registry_def ip_registry.simps list.map_comp comp_def snd_conv set_map)
qed

text \<open>
  C3 (the code diverges from the claim). The claim: \<open>generate_client_subnet\<close> terminates
  for every registry state, with a bounded probe and a defined failure when every slot is
  taken. On the code: with all 200 candidates \<open>10.b.85.0/24\<close>, \<open>b\<close> from 10 to 209,
  already assigned, the call at timestamp 1700000000 (second octet 85) never returns.
\<close>

theorem generate_client_subnet_exhausted_loops:
  "generate_client_subnet exhausted_registry ''aws-us-east-1-20231114-221320'' 1700000000 t_2023 = None"
proof -
  have "probe_subnet (map snd (client_subnets exhausted_registry)) 10 85 = None"
    by (rule probe_subnet_exhausted [OF exhausted_registry_full]) simp
  then show ?thesis by (simp add: generate_client_subnet_def)
qed

section \<open>Properties of the floating-point model\<close>

lemma pow2_pos: "0 < pow2 e"
  by (simp add: pow2_def)

lemma pow2_add: "pow2 (a + b) = pow2 a * pow2 b"
  by (simp add: pow2_def power_int_add)

lemma pow2_mono: "a \<le> b \<Longrightarrow> pow2 a \<le> pow2 b"
  by (simp add: pow2_def power_int_increasing)

lemma pow2_strict_mono: "a < b \<Longrightarrow> pow2 a < pow2 b"
  by (simp add: pow2_def power_int_strict_increasing)

lemma pow2_diff: "pow2 (a - b) = pow2 a / pow2 b"
  by (simp add: pow2_def power_int_diff)

lemma pow2_nonneg_exp: "0 \<le> e \<Longrightarrow> pow2 e = 2 ^ nat e"
  by (simp add: pow2_def power_int_nonneg_exp)

lemma bitlen_pow2_bounds:
  assumes "0 < p"
  shows "pow2 (bitlen p - 1) \<le> of_int p" and "of_int p < pow2 (bitlen p)"
proof -
  from assms have b1: "1 \<le> bitlen p"
    by (auto simp: bitlen_alt_def)
  from bitlen_bounds [OF assms]
  have lo: "2 ^ nat (bitlen p - 1) \<le> p" and hi: "p < 2 ^ nat (bitlen p)" by auto
  from lo have "(of_int (2 ^ nat (bitlen p - 1)) :: rat) \<le> of_int p"
    by (simp only: of_int_le_iff)
  with b1 show "pow2 (bitlen p - 1) \<le> of_int p"
    by (simp add: pow2_nonneg_exp)
  from hi have "(of_int p :: rat) < of_int (2 ^ nat (bitlen p))"
    by (simp only: of_int_less_iff)
  with b1 show "of_int p < pow2 (bitlen p)"
    by (simp add: pow2_nonneg_exp)
qed

lemma ilog2_bounds:
  assumes "0 < x"
  shows "pow2 (ilog2 x) \<le> x" and "x < pow2 (ilog2 x + 1)"
proof -
  obtain p q where pq: "quotient_of x = (p, q)" by (cases "quotient_of x")
  then have q: "0 < q" by (rule quotient_of_denom_pos)
  from pq have x: "x = of_int p / of_int q" by (rule quotient_of_div)
  with assms q have p: "0 < p"
    by (simp add: zero_less_divide_iff)
  define d where "d = bitlen p - bitlen q"
  note bp = bitlen_pow2_bounds [OF p] and bq = bitlen_pow2_bounds [OF q]
  have qpos: "(0::rat) < of_int q" using q by simp
  have "x < pow2 (bitlen p) / pow2 (bitlen q - 1)"
    unfolding x using bp(2) bq(1) qpos pow2_pos [of "bitlen q - 1"]
    by (intro frac_less) (auto simp: p less_imp_le)
  also have "\<dots> = pow2 (bitlen p - (bitlen q - 1))"
    by (simp only: pow2_diff)
  also have "bitlen p - (bitlen q - 1) = d + 1"
    by (simp add: d_def)
  finally have up: "x < pow2 (d + 1)" .
  have "d - 1 = bitlen p - 1 - bitlen q"
    by (simp add: d_def)
  then have "pow2 (d - 1) = pow2 (bitlen p - 1) / pow2 (bitlen q)"
    by (simp only: pow2_diff)
  also have "\<dots> < x"
    unfolding x using bp(1) bq(2) qpos pow2_pos [of "bitlen p - 1"]
    by (intro frac_less2) auto
  finally have lo: "pow2 (d - 1) < x" .
  have il: "ilog2 x = (if pow2 d \<le> x then d else d - 1)"
    by (simp add: ilog2_def pq d_def Let_def)
  show "pow2 (ilog2 x) \<le> x"
    using lo by (simp add: il less_imp_le)
  show "x < pow2 (ilog2 x + 1)"
    using up by (simp add: il not_le)
qed

lemma ilog2_eqI:
  assumes "pow2 e \<le> x" and "x < pow2 (e + 1)"
  shows "ilog2 x = e"
proof -
  from assms(1) pow2_pos [of e] have x: "0 < x" by simp
  note b = ilog2_bounds [OF x]
  have "\<not> ilog2 x < e"
  proof
    assume "ilog2 x < e"
    then have "pow2 (ilog2 x + 1) \<le> pow2 e" by (intro pow2_mono) simp
    with b(2) assms(1) show False by simp
  qed
  moreover have "\<not> e < ilog2 x"
  proof
    assume "e < ilog2 x"
    then have "pow2 (e + 1) \<le> pow2 (ilog2 x)" by (intro pow2_mono) simp
    with b(1) assms(2) show False by simp
  qed
  ultimately show ?thesis by simp
qed

lemma ilog2_mono:
  assumes "0 < x" and "x \<le> y"
  shows "ilog2 x \<le> ilog2 y"
proof (rule ccontr)
  assume "\<not> ilog2 x \<le> ilog2 y"
  then have "pow2 (ilog2 y + 1) \<le> pow2 (ilog2 x)" by (intro pow2_mono) simp
  moreover from assms have y: "0 < y" by simp
  ultimately show False
    using ilog2_bounds(1) [OF assms(1)] ilog2_bounds(2) [OF y] assms(2) by simp
qed

lemma round_half_even_cases:
  "round_half_even x = \<lfloor>x\<rfloor> \<and> x - of_int \<lfloor>x\<rfloor> \<le> 1 / 2 \<or>
   round_half_even x = \<lfloor>x\<rfloor> + 1 \<and> 1 / 2 \<le> x - of_int \<lfloor>x\<rfloor>"
  by (auto simp: round_half_even_def Let_def)

lemma round_half_even_eqI:
  assumes "of_int m - 1 / 2 < y" and "y < of_int m + 1 / 2"
  shows "round_half_even y = m"
proof (cases "of_int m \<le> y")
  case True
  with assms have "\<lfloor>y\<rfloor> = m" by (intro floor_unique) auto
  with assms show ?thesis by (simp add: round_half_even_def Let_def)
next
  case False
  with assms have "\<lfloor>y\<rfloor> = m - 1" by (intro floor_unique) auto
  with assms show ?thesis by (simp add: round_half_even_def Let_def)
qed

lemma round_half_even_of_int [simp]: "round_half_even (of_int n) = n"
  by (rule round_half_even_eqI) simp_all

lemma round_half_even_mono:
  assumes "x \<le> y"
  shows "round_half_even x \<le> round_half_even y"
proof (cases "\<lfloor>x\<rfloor> = \<lfloor>y\<rfloor>")
  case True
  with assms show ?thesis
    by (auto simp: round_half_even_def Let_def)
next
  case False
  with assms floor_mono [OF assms] have "\<lfloor>x\<rfloor> + 1 \<le> \<lfloor>y\<rfloor>" by simp
  moreover have "round_half_even x \<le> \<lfloor>x\<rfloor> + 1"
    using round_half_even_cases [of x] by auto
  moreover have "\<lfloor>y\<rfloor> \<le> round_half_even y"
    using round_half_even_cases [of y] by auto
  ultimately show ?thesis by simp
qed

lemma round_half_even_minus: "round_half_even (- x) = - round_half_even x"
proof (cases "x = of_int \<lfloor>x\<rfloor>")
  case True
  then obtain n where "x = of_int n" ..
  then have "- x = of_int (- n)" by simp
  with \<open>x = of_int n\<close> show ?thesis by (simp only: round_half_even_of_int)
next
  case False
  then have fl: "\<lfloor>- x\<rfloor> = - \<lfloor>x\<rfloor> - 1"
    by (intro floor_unique) (auto simp: less_le le_floor_iff, linarith+)
  show ?thesis
    by (auto simp: round_half_even_def Let_def fl)
qed

lemma ulp_exp_minus [simp]: "ulp_exp (- x) = ulp_exp x"
  by (simp add: ulp_exp_def)

lemma rnd_0 [simp]: "rnd 0 = 0"
  by (simp add: rnd_def)

lemma rnd_minus: "rnd (- x) = - rnd x"
  by (simp add: rnd_def round_half_even_minus)

lemma rnd_nonneg:
  assumes "0 \<le> x"
  shows "0 \<le> rnd x"
proof -
  from assms pow2_pos [of "ulp_exp x"] have "0 \<le> x / pow2 (ulp_exp x)" by simp
  then have "round_half_even 0 \<le> round_half_even (x / pow2 (ulp_exp x))"
    by (rule round_half_even_mono)
  then have "0 \<le> round_half_even (x / pow2 (ulp_exp x))"
    using round_half_even_of_int [of 0] by simp
  with pow2_pos [of "ulp_exp x"] show ?thesis
    by (simp add: rnd_def zero_le_mult_iff less_imp_le)
qed

lemma pow2_of_int: "0 \<le> e \<Longrightarrow> pow2 e = of_int (2 ^ nat e)"
  by (simp add: pow2_nonneg_exp)

lemma round_half_even_le_pow2:
  assumes "x \<le> pow2 e * pow2 u" and "0 \<le> e"
  shows "of_int (round_half_even (x / pow2 u)) * pow2 u \<le> pow2 (e + u)"
proof -
  from assms(1) pow2_pos [of u] have "x / pow2 u \<le> pow2 e"
    by (simp add: pos_divide_le_eq)
  then have "round_half_even (x / pow2 u) \<le> round_half_even (pow2 e)"
    by (rule round_half_even_mono)
  also have "round_half_even (pow2 e) = 2 ^ nat e"
    using assms(2) by (simp only: pow2_of_int round_half_even_of_int)
  finally have "(of_int (round_half_even (x / pow2 u)) :: rat) \<le> of_int (2 ^ nat e)"
    by (simp only: of_int_le_iff)
  then have "of_int (round_half_even (x / pow2 u)) \<le> pow2 e"
    using assms(2) by (simp only: pow2_of_int)
  with pow2_pos [of u] have "of_int (round_half_even (x / pow2 u)) * pow2 u \<le> pow2 e * pow2 u"
    by (intro mult_right_mono) (auto simp: less_imp_le)
  then show ?thesis by (simp only: pow2_add)
qed

lemma round_half_even_ge_pow2:
  assumes "pow2 e * pow2 u \<le> x" and "0 \<le> e"
  shows "pow2 (e + u) \<le> of_int (round_half_even (x / pow2 u)) * pow2 u"
proof -
  from assms(1) pow2_pos [of u] have "pow2 e \<le> x / pow2 u"
    by (simp add: pos_le_divide_eq)
  then have "round_half_even (pow2 e) \<le> round_half_even (x / pow2 u)"
    by (rule round_half_even_mono)
  moreover have "round_half_even (pow2 e) = 2 ^ nat e"
    using assms(2) by (simp only: pow2_of_int round_half_even_of_int)
  ultimately have "(of_int (2 ^ nat e) :: rat) \<le> of_int (round_half_even (x / pow2 u))"
    by (simp only: of_int_le_iff)
  then have "pow2 e \<le> of_int (round_half_even (x / pow2 u))"
    using assms(2) by (simp only: pow2_of_int)
  with pow2_pos [of u] have "pow2 e * pow2 u \<le> of_int (round_half_even (x / pow2 u)) * pow2 u"
    by (intro mult_right_mono) (auto simp: less_imp_le)
  then show ?thesis by (simp only: pow2_add)
qed

lemma rnd_mono_pos:
  assumes x: "0 < x" and xy: "x \<le> y"
  shows "rnd x \<le> rnd y"
proof -
  from x xy have y: "0 < y" by simp
  have il: "ilog2 x \<le> ilog2 y" using x xy by (rule ilog2_mono)
  define ux where "ux = ulp_exp x"
  define uy where "uy = ulp_exp y"
  have ux: "ux = max (ilog2 x - 52) (- 1074)" and uy: "uy = max (ilog2 y - 52) (- 1074)"
    using x y by (simp_all add: ux_def uy_def ulp_exp_def)
  have rx: "rnd x = of_int (round_half_even (x / pow2 ux)) * pow2 ux"
    using x by (simp add: rnd_def ux_def)
  have ry: "rnd y = of_int (round_half_even (y / pow2 uy)) * pow2 uy"
    using y by (simp add: rnd_def uy_def)
  from il have le: "ux \<le> uy" unfolding ux uy max_def by simp
  show ?thesis
  proof (cases "ux = uy")
    case True
    from xy pow2_pos [of uy] have "x / pow2 uy \<le> y / pow2 uy"
      by (simp add: divide_right_mono less_imp_le)
    then have "round_half_even (x / pow2 uy) \<le> round_half_even (y / pow2 uy)"
      by (rule round_half_even_mono)
    then have "(of_int (round_half_even (x / pow2 uy)) :: rat) \<le> of_int (round_half_even (y / pow2 uy))"
      by (simp only: of_int_le_iff)
    with pow2_pos [of uy] show ?thesis
      unfolding rx ry True by (intro mult_right_mono) (auto simp: less_imp_le)
  next
    case False
    with le have lt: "ux < uy" by simp
    then have uy_eq: "uy = ilog2 y - 52" unfolding ux uy max_def by (simp split: if_splits)
    have "ilog2 x + 1 \<le> 53 + ux" unfolding ux max_def by simp
    then have "pow2 (ilog2 x + 1) \<le> pow2 (53 + ux)" by (rule pow2_mono)
    with ilog2_bounds(2) [OF x] have "x \<le> pow2 53 * pow2 ux"
      by (simp only: pow2_add)
    then have "rnd x \<le> pow2 (53 + ux)"
      unfolding rx by (rule round_half_even_le_pow2) simp
    also from lt have "pow2 (53 + ux) \<le> pow2 (52 + uy)" by (intro pow2_mono) simp
    also have "pow2 (52 + uy) \<le> rnd y"
    proof -
      have "52 + uy = ilog2 y" by (simp add: uy_eq)
      with ilog2_bounds(1) [OF y] have "pow2 52 * pow2 uy \<le> y"
        by (simp only: pow2_add [symmetric])
      then show ?thesis
        unfolding ry by (rule round_half_even_ge_pow2) simp
    qed
    finally show ?thesis .
  qed
qed

lemma rnd_mono:
  assumes "x \<le> y"
  shows "rnd x \<le> rnd y"
proof -
  consider "0 < x" | "y < 0" | "x \<le> 0" "0 \<le> y" by linarith
  then show ?thesis
  proof cases
    case 1
    then show ?thesis using assms by (rule rnd_mono_pos)
  next
    case 2
    with assms have "0 < - y" "- y \<le> - x" by simp_all
    then have "rnd (- y) \<le> rnd (- x)" by (rule rnd_mono_pos)
    then show ?thesis by (simp add: rnd_minus)
  next
    case 3
    from 3(1) have "0 \<le> - x" by simp
    then have "0 \<le> rnd (- x)" by (rule rnd_nonneg)
    then have "rnd x \<le> 0" by (simp add: rnd_minus)
    also from 3(2) have "0 \<le> rnd y" by (rule rnd_nonneg)
    finally show ?thesis .
  qed
qed

lemma round2_mono: "x \<le> y \<Longrightarrow> round2 x \<le> round2 y"
  unfolding round2_def
  by (intro rnd_mono divide_right_mono) (simp_all add: round_half_even_mono)

lemma rnd_eval:
  assumes "pow2 e \<le> \<bar>x\<bar>" and "\<bar>x\<bar> < pow2 (e + 1)"
    and "round_half_even (x / pow2 (max (e - 52) (- 1074))) = m"
  shows "rnd x = of_int m * pow2 (max (e - 52) (- 1074))"
proof -
  from assms(1) pow2_pos [of e] have "x \<noteq> 0" by auto
  moreover from assms(1,2) have "ilog2 \<bar>x\<bar> = e" by (rule ilog2_eqI)
  ultimately show ?thesis
    using assms(3) by (simp add: rnd_def ulp_exp_def)
qed


text \<open>The doubles of the scenario \<open>7.60 + 3.60 + 20 * 0.10\<close>, step by step.\<close>

lemma float_lit_7_60: "float_lit (760 / 100) = 4278419646001971 / 562949953421312"
proof -
  have "rnd (760 / 100) = of_int 8556839292003942 * pow2 (max (2 - 52) (- 1074))"
  proof (rule rnd_eval)
    show "pow2 (2) \<le> \<bar>760 / 100 :: rat\<bar>" by (simp add: pow2_def)
    show "\<bar>760 / 100 :: rat\<bar> < pow2 (2 + 1)" by (simp add: pow2_def)
    show "round_half_even ((760 / 100) / pow2 (max (2 - 52) (- 1074))) = 8556839292003942"
      by (rule round_half_even_eqI) (simp_all add: pow2_def)
  qed
  then show ?thesis by (simp add: float_lit_def pow2_def)
qed

lemma float_lit_3_60: "float_lit (360 / 100) = 8106479329266893 / 2251799813685248"
proof -
  have "rnd (360 / 100) = of_int 8106479329266893 * pow2 (max (1 - 52) (- 1074))"
  proof (rule rnd_eval)
    show "pow2 (1) \<le> \<bar>360 / 100 :: rat\<bar>" by (simp add: pow2_def)
    show "\<bar>360 / 100 :: rat\<bar> < pow2 (1 + 1)" by (simp add: pow2_def)
    show "round_half_even ((360 / 100) / pow2 (max (1 - 52) (- 1074))) = 8106479329266893"
      by (rule round_half_even_eqI) (simp_all add: pow2_def)
  qed
  then show ?thesis by (simp add: float_lit_def pow2_def)
qed

lemma float_lit_0_10: "float_lit (10 / 100) = 3602879701896397 / 36028797018963968"
proof -
  have "rnd (10 / 100) = of_int 7205759403792794 * pow2 (max (-4 - 52) (- 1074))"
  proof (rule rnd_eval)
    show "pow2 (-4) \<le> \<bar>10 / 100 :: rat\<bar>" by (simp add: pow2_def)
    show "\<bar>10 / 100 :: rat\<bar> < pow2 (-4 + 1)" by (simp add: pow2_def)
    show "round_half_even ((10 / 100) / pow2 (max (-4 - 52) (- 1074))) = 7205759403792794"
      by (rule round_half_even_eqI) (simp_all add: pow2_def)
  qed
  then show ?thesis by (simp add: float_lit_def pow2_def)
qed

lemma float_of_int_20: "float_of_int 20 = 20"
proof -
  have "rnd (20) = of_int 5629499534213120 * pow2 (max (4 - 52) (- 1074))"
  proof (rule rnd_eval)
    show "pow2 (4) \<le> \<bar>20 :: rat\<bar>" by (simp add: pow2_def)
    show "\<bar>20 :: rat\<bar> < pow2 (4 + 1)" by (simp add: pow2_def)
    show "round_half_even ((20) / pow2 (max (4 - 52) (- 1074))) = 5629499534213120"
      by (rule round_half_even_eqI) (simp_all add: pow2_def)
  qed
  then show ?thesis by (simp add: float_of_int_def pow2_def)
qed

lemma fadd_7_60_3_60: "fadd (4278419646001971 / 562949953421312) (8106479329266893 / 2251799813685248) = 3152519739159347 / 281474976710656"
proof -
  have "rnd (4278419646001971 / 562949953421312 + 8106479329266893 / 2251799813685248) = of_int 6305039478318694 * pow2 (max (3 - 52) (- 1074))"
  proof (rule rnd_eval)
    show "pow2 (3) \<le> \<bar>4278419646001971 / 562949953421312 + 8106479329266893 / 2251799813685248 :: rat\<bar>" by (simp add: pow2_def)
    show "\<bar>4278419646001971 / 562949953421312 + 8106479329266893 / 2251799813685248 :: rat\<bar> < pow2 (3 + 1)" by (simp add: pow2_def)
    show "round_half_even ((4278419646001971 / 562949953421312 + 8106479329266893 / 2251799813685248) / pow2 (max (3 - 52) (- 1074))) = 6305039478318694"
      by (rule round_half_even_eqI) (simp_all add: pow2_def)
  qed
  then show ?thesis by (simp add: fadd_def pow2_def)
qed

lemma fmul_20_0_10: "fmul 20 (3602879701896397 / 36028797018963968) = 2"
proof -
  have "rnd (20 * (3602879701896397 / 36028797018963968)) = of_int 4503599627370496 * pow2 (max (1 - 52) (- 1074))"
  proof (rule rnd_eval)
    show "pow2 (1) \<le> \<bar>20 * (3602879701896397 / 36028797018963968) :: rat\<bar>" by (simp add: pow2_def)
    show "\<bar>20 * (3602879701896397 / 36028797018963968) :: rat\<bar> < pow2 (1 + 1)" by (simp add: pow2_def)
    show "round_half_even ((20 * (3602879701896397 / 36028797018963968)) / pow2 (max (1 - 52) (- 1074))) = 4503599627370496"
      by (rule round_half_even_eqI) (simp_all add: pow2_def)
  qed
  then show ?thesis by (simp add: fmul_def pow2_def)
qed

lemma fadd_11_20_2: "fadd (3152519739159347 / 281474976710656) 2 = 3715469692580659 / 281474976710656"
proof -
  have "rnd (3152519739159347 / 281474976710656 + 2) = of_int 7430939385161318 * pow2 (max (3 - 52) (- 1074))"
  proof (rule rnd_eval)
    show "pow2 (3) \<le> \<bar>3152519739159347 / 281474976710656 + 2 :: rat\<bar>" by (simp add: pow2_def)
    show "\<bar>3152519739159347 / 281474976710656 + 2 :: rat\<bar> < pow2 (3 + 1)" by (simp add: pow2_def)
    show "round_half_even ((3152519739159347 / 281474976710656 + 2) / pow2 (max (3 - 52) (- 1074))) = 7430939385161318"
      by (rule round_half_even_eqI) (simp_all add: pow2_def)
  qed
  then show ?thesis by (simp add: fadd_def pow2_def)
qed

lemma round2_13_20: "round2 (3715469692580659 / 281474976710656) = float_lit (1320 / 100)"
proof -
  have "round_half_even (3715469692580659 / 281474976710656 * 100) = 1320"
    by (rule round_half_even_eqI) simp_all
  then show ?thesis by (simp add: round2_def float_lit_def)
qed

lemma scenario_monthly:
  "round2 (fadd (fadd (float_lit (760 / 100)) (float_lit (360 / 100)))
                (fmul (float_of_int 20) (float_lit (10 / 100)))) = float_lit (1320 / 100)"
  by (simp only: float_lit_7_60 float_lit_3_60 float_lit_0_10 float_of_int_20 fadd_7_60_3_60
      fmul_20_0_10 fadd_11_20_2 round2_13_20)


section \<open>Properties of the Deployment Ledger\<close>

lemma is_digit_digit_char [simp]: "is_digit (digit_char n)"
  unfolding is_digit_def digit_char_def by (rule nth_mem) simp

lemma digit_char_0: "digit_char 0 = CHR ''0''"
  by (simp add: digit_char_def)

lemma digit_char_mod: "digit_char (n mod 10) = digit_char n"
  by (simp add: digit_char_def)

lemma str_nat_lt10: "n < 10 \<Longrightarrow> str_nat n = [digit_char n]"
  by (simp add: str_nat.simps)

lemma str_nat_ge10: "10 \<le> n \<Longrightarrow> str_nat n = str_nat (n div 10) @ [digit_char n]"
  by (subst str_nat.simps) simp

lemma zfill_2:
  assumes "n < 100"
  shows "zfill 2 (str_nat n) = [digit_char (n div 10), digit_char n]"
proof (cases "n < 10")
  case True
  then show ?thesis by (simp add: str_nat_lt10 zfill_def digit_char_0)
next
  case False
  with assms have "n div 10 < 10" by simp
  with False show ?thesis by (simp add: str_nat_ge10 str_nat_lt10 zfill_def)
qed

lemma zfill_4:
  assumes "1000 \<le> n" and "n < 10000"
  shows "zfill 4 (str_nat n) =
         [digit_char (n div 1000), digit_char (n div 100), digit_char (n div 10), digit_char n]"
proof -
  from assms have a: "10 \<le> n" "10 \<le> n div 10" "10 \<le> n div 10 div 10" "n div 10 div 10 div 10 < 10"
    by simp_all
  have b: "n div 10 div 10 = n div 100" "n div 100 div 10 = n div 1000"
    by (simp_all add: div_mult2_eq [symmetric])
  from a show ?thesis
    by (simp add: str_nat_ge10 str_nat_lt10 zfill_def b)
qed

lemma strftime_digits:
  assumes "valid_datetime t"
  shows "strftime t =
    [digit_char (year t div 1000), digit_char (year t div 100), digit_char (year t div 10),
     digit_char (year t), digit_char (month t div 10), digit_char (month t),
     digit_char (day t div 10), digit_char (day t), CHR ''-'',
     digit_char (hour t div 10), digit_char (hour t), digit_char (minute t div 10),
     digit_char (minute t), digit_char (second t div 10), digit_char (second t)]"
proof -
  from assms have "1000 \<le> year t" "year t < 10000" "month t < 100" "day t < 100"
    "hour t < 100" "minute t < 100" "second t < 100"
    by (simp_all add: valid_datetime_def)
  then show ?thesis
    by (simp add: strftime_def zfill_2 zfill_4)
qed

lemma strftime_matches: "valid_datetime t \<Longrightarrow> matches_timestamp (strftime t)"
  by (simp add: strftime_digits matches_timestamp_def)







lemma ledger_records_Cons:
  "ledger_records ((p, rs) # led) = concat (map snd rs) @ ledger_records led"
  by (simp add: ledger_records_def)

lemma ledger_records_Nil [simp]: "ledger_records [] = []"
  by (simp add: ledger_records_def)




lemma set_region_update:
  "set (concat (map snd
     (AList.update k ((case map_of rs k of None \<Rightarrow> [] | Some l \<Rightarrow> l) @ [d]) rs)))
   = insert d (set (concat (map snd rs)))"
  by (induction rs) auto

lemma set_ledger_update:
  assumes "set (concat (map snd rs')) =
           insert d (set (concat (map snd (case map_of led p of None \<Rightarrow> [] | Some rs \<Rightarrow> rs))))"
  shows "set (ledger_records (AList.update p rs' led)) = insert d (set (ledger_records led))"
  using assms
proof (induction led)
  case Nil
  then show ?case by (simp add: ledger_records_def)
next
  case (Cons a led)
  obtain q rs where a: "a = (q, rs)" by (cases a)
  show ?case
  proof (cases "q = p")
    case True
    with Cons.prems a show ?thesis by (simp add: ledger_records_Cons)
  next
    case False
    with Cons.prems a have "set (ledger_records (AList.update p rs' led))
        = insert d (set (ledger_records led))"
      by (intro Cons.IH) simp
    with False a show ?thesis by (auto simp: ledger_records_Cons)
  qed
qed

lemma set_ledger_records_store:
  "set (ledger_records (store_deployment p r d led)) = insert d (set (ledger_records led))"
  unfolding store_deployment_def Let_def
  by (rule set_ledger_update) (rule set_region_update)





lemma list_all_deployments_saved [simp]:
  "list_all_deployments \<lparr>inventory = save_inventory now (doc\<lparr>deployments := led\<rparr>),
                          ip_manager = ipm\<rparr> = ledger_records led"
  "list_all_deployments (t\<lparr>inventory := save_inventory now (doc\<lparr>deployments := led\<rparr>)\<rparr>)
     = ledger_records led"
  "list_all_deployments (t\<lparr>inventory := doc\<lparr>deployments := led\<rparr>\<rparr>) = ledger_records led"
  by (simp_all add: list_all_deployments_def save_inventory_def)

lemma get_deployments_by_region_store:
  "get_deployments_by_region
     \<lparr>inventory = save_inventory now
        ((inventory t)\<lparr>deployments := store_deployment p r d (deployments (inventory t))\<rparr>),
      ip_manager = ipm\<rparr> p' r' =
   (if p' = p \<and> r' = r then get_deployments_by_region t p r @ [d]
    else get_deployments_by_region t p' r')"
  by (simp add: get_deployments_by_region_def store_deployment_def Let_def update_conv'
      save_inventory_def split: option.splits)

lemma add_deployment_result:
  assumes "add_deployment t did p r res cfg now = Inr (i, t')"
  shows "\<exists>d. (\<forall>p' r'. get_deployments_by_region t' p' r' =
                  (if p' = p \<and> r' = r then get_deployments_by_region t p r @ [d]
                   else get_deployments_by_region t p' r')) \<and>
             dep_id d = i \<and> i = (if did = [] then p @ ''-'' @ r @ ''-'' @ strftime now else did) \<and>
             status d = ''active'' \<and> resources d = res \<and> provider d = p \<and> region d = r \<and>
             estimate_cost p res cfg = Inr (cost_estimate d) \<and>
             set (list_all_deployments t') = insert d (set (list_all_deployments t))"
proof (cases "estimate_cost p res cfg")
  case (Inl e)
  with assms show ?thesis by (simp add: add_deployment_def Let_def)
next
  case (Inr c)
  define i0 where "i0 = (if did = [] then p @ ''-'' @ r @ ''-'' @ strftime now else did)"
  define d where "d =
     \<lparr>dep_id = i0, provider = p, region = r, created_at = now, status = ''active'',
      resources = res, config = (case cfg of None \<Rightarrow> [] | Some cf \<Rightarrow> cf),
      tags = [(''managed_by'', ''proxygen''), (''provider'', p), (''region'', r)],
      cost_estimate = c, clients = [], destroyed_at = None, last_modified = None\<rparr>"
  define ipm where "ipm =
     (if dict_has res ''public_ip''
      then register_deployment_ip (ip_manager t) i0 p r (dict_get res ''public_ip'') now
      else ip_manager t)"
  from assms Inr have i: "i = i0"
    and t': "t' = \<lparr>inventory = save_inventory now
        ((inventory t)\<lparr>deployments := store_deployment p r d (deployments (inventory t))\<rparr>),
      ip_manager = ipm\<rparr>"
    by (auto simp: add_deployment_def Let_def i0_def d_def ipm_def)
  show ?thesis
  proof (intro exI [of _ d] conjI allI)
    show "set (list_all_deployments t') = insert d (set (list_all_deployments t))"
      unfolding t' by (simp add: set_ledger_records_store list_all_deployments_def
          save_inventory_def)
  next
    fix p' r'
    show "get_deployments_by_region t' p' r' =
          (if p' = p \<and> r' = r then get_deployments_by_region t p r @ [d]
           else get_deployments_by_region t p' r')"
      unfolding t' by (rule get_deployments_by_region_store)
  qed (simp_all add: d_def i i0_def Inr)
qed


lemma add_deployment_generated_id:
  "add_deployment t [] prov reg_name res cfg now = Inr (i, t') \<Longrightarrow>
   i = prov @ ''-'' @ reg_name @ ''-'' @ strftime now"
  by (auto simp: add_deployment_def Let_def split: sum.splits)

lemma scenario_estimate:
  "estimate_cost ''aws'' scenario_resources (Some scenario_config) =
     Inr \<lparr>monthly = round2 (fadd (fadd (float_lit (760 / 100)) (float_lit (360 / 100)))
                               (fmul (float_of_int 20) (float_lit (10 / 100)))),
          yearly = round2 (fmul (fadd (fadd (float_lit (760 / 100)) (float_lit (360 / 100)))
                               (fmul (float_of_int 20) (float_lit (10 / 100)))) 12),
          daily = round2 (fdiv (fadd (fadd (float_lit (760 / 100)) (float_lit (360 / 100)))
                               (fmul (float_of_int 20) (float_lit (10 / 100)))) 30),
          currency = ''USD''\<rparr>"
  by (simp add: estimate_cost_def instance_cost_def storage_cost_def scenario_resources_def
      scenario_config_def dict_has_def dict_get_def instance_pricing_def ip_rate_def
      storage_rate_def additional_costs_def Let_def)

lemma strftime_t_2023: "strftime t_2023 = ''20231114-221320''"
  by (simp add: strftime_def t_2023_def zfill_def str_nat.simps digit_char_def)

lemma strftime_t_2023_later: "strftime t_2023_later = ''20231114-221320''"
  by (simp add: strftime_def t_2023_later_def t_2023_def zfill_def str_nat.simps digit_char_def)

text \<open>
  C1 (the code diverges from the claim). The claim: the ids returned by successful
  \<open>add()\<close> calls with an empty id and the same provider and region are pairwise distinct.
  On the code the id is \<open>{provider}-{region}-\<close> followed by the clock at one-second
  resolution: two calls half a second apart, at 22:13:20.0 and 22:13:20.5, both succeed
  and both return \<open>aws-us-east-1-20231114-221320\<close>.
\<close>

theorem add_deployment_same_second_same_id:
  "returned_id first_add = Inr ''aws-us-east-1-20231114-221320'' \<and>
   returned_id second_add = Inr ''aws-us-east-1-20231114-221320'' \<and>
   t_2023 \<noteq> t_2023_later"
proof -
  have "t_2023 \<noteq> t_2023_later"
    by (simp add: t_2023_later_def t_2023_def)
  then show ?thesis
    by (simp add: returned_id_def first_add_def second_add_def add_deployment_def scenario_estimate
        strftime_t_2023 strftime_t_2023_later Let_def)
qed

lemma scenario_estimate_monthly:
  "\<exists>y dd. estimate_cost ''aws'' scenario_resources (Some scenario_config) =
     Inr \<lparr>monthly = float_lit (1320 / 100), yearly = y, daily = dd, currency = ''USD''\<rparr>"
  unfolding scenario_estimate scenario_monthly by blast

text \<open>
  C8. On any Ledger and at any clock reading, \<open>add\<close> with an empty id, provider
  \<open>aws\<close>, region \<open>us-east-1\<close>, resources \<open>{public_ip: "1.2.3.4"}\<close> and config
  \<open>{instance_type: "t3.micro"}\<close> succeeds; the id it returns matches
  \<open>^aws-us-east-1-\d{8}-\d{6}$\<close>; the record it appends to the region's list has that
  id, status \<open>active\<close>, and a monthly estimate equal to the double \<open>13.20\<close>, which is
  what \<open>round(7.60 + 3.60 + 20 * 0.10, 2)\<close> evaluates to in binary64.
\<close>

theorem add_scenario:
  assumes "valid_datetime now"
  shows "\<exists>i t' d.
     add_deployment t [] ''aws'' ''us-east-1'' scenario_resources (Some scenario_config) now
       = Inr (i, t') \<and>
     matches_scenario_id i \<and>
     get_deployments_by_region t' ''aws'' ''us-east-1''
       = get_deployments_by_region t ''aws'' ''us-east-1'' @ [d] \<and>
     dep_id d = i \<and> status d = ''active'' \<and>
     monthly (cost_estimate d) = float_lit (1320 / 100)"
proof -
  obtain i t' where add:
    "add_deployment t [] ''aws'' ''us-east-1'' scenario_resources (Some scenario_config) now
       = Inr (i, t')"
    by (simp add: add_deployment_def scenario_estimate Let_def)
  from add_deployment_result [OF add] obtain d where
    lists: "\<forall>p' r'. get_deployments_by_region t' p' r' =
              (if p' = ''aws'' \<and> r' = ''us-east-1''
               then get_deployments_by_region t ''aws'' ''us-east-1'' @ [d]
               else get_deployments_by_region t p' r')"
    and d: "dep_id d = i" "status d = ''active''"
    and i: "i = ''aws'' @ ''-'' @ ''us-east-1'' @ ''-'' @ strftime now"
    and c: "estimate_cost ''aws'' scenario_resources (Some scenario_config) = Inr (cost_estimate d)"
    by auto
  from lists have l: "get_deployments_by_region t' ''aws'' ''us-east-1''
       = get_deployments_by_region t ''aws'' ''us-east-1'' @ [d]"
    by simp
  from scenario_estimate_monthly c have m: "monthly (cost_estimate d) = float_lit (1320 / 100)"
    by auto
  from strftime_matches [OF assms] have "matches_scenario_id i"
    by (simp add: matches_scenario_id_def i)
  with add l d m show ?thesis by blast
qed

lemma valid_t_2023: "valid_datetime t_2023"
  by (simp add: valid_datetime_def t_2023_def)

theorem add_scenario_witness:
  "valid_datetime t_2023 \<and>
   (\<exists>i t' d.
     add_deployment empty_tracker [] ''aws'' ''us-east-1'' scenario_resources
       (Some scenario_config) t_2023 = Inr (i, t') \<and>
     matches_scenario_id i \<and>
     get_deployments_by_region t' ''aws'' ''us-east-1''
       = get_deployments_by_region empty_tracker ''aws'' ''us-east-1'' @ [d] \<and>
     dep_id d = i \<and> status d = ''active'' \<and>
     monthly (cost_estimate d) = float_lit (1320 / 100))"
  using add_scenario [OF valid_t_2023, of empty_tracker] valid_t_2023 by simp



















section \<open>Properties of loading\<close>

text \<open>
  C10. A registry file that does not parse makes \<open>load_ip_registry\<close> raise
  \<open>JSONDecodeError\<close>, and with it the constructor of the Deployment Ledger, whatever the
  inventory file holds; when the registry loads and only the inventory file does not
  parse, the Ledger is constructed with the empty inventory
  \<open>{"deployments": {}, "metadata": {}}\<close>.
\<close>

theorem corrupted_registry_blocks_ledger:
  "(ip_registry_file dk = Corrupt \<longrightarrow>
      load_ip_registry dk now = Inl JSONDecodeError \<and>
      DeploymentTracker_init dk now = Inl JSONDecodeError) \<and>
   (ip_registry_file dk \<noteq> Corrupt \<and> inventory_file dk = Corrupt \<longrightarrow>
      (\<exists>t dk'. DeploymentTracker_init dk now = Inr (t, dk') \<and>
                inventory t = \<lparr>deployments = [], metadata = []\<rparr>))"
  by (cases "ip_registry_file dk")
     (simp_all add: DeploymentTracker_init_def load_ip_registry_def load_inventory_def Let_def)

theorem corrupted_registry_blocks_ledger_witness:
  "ip_registry_file disk_corrupt_registry = Corrupt \<and>
   DeploymentTracker_init disk_corrupt_registry t_2023 = Inl JSONDecodeError \<and>
   ip_registry_file disk_corrupt_inventory \<noteq> Corrupt \<and>
   inventory_file disk_corrupt_inventory = Corrupt \<and>
   (\<exists>t dk'. DeploymentTracker_init disk_corrupt_inventory t_2023 = Inr (t, dk') \<and>
             inventory t = \<lparr>deployments = [], metadata = []\<rparr>)"
  using corrupted_registry_blocks_ledger [of disk_corrupt_registry t_2023]
    corrupted_registry_blocks_ledger [of disk_corrupt_inventory t_2023]
  by (simp add: disk_corrupt_registry_def disk_corrupt_inventory_def)

section \<open>Properties of the Resource Discovery Bridge\<close>
















section \<open>Properties of the Provisioning State Machine\<close>

text \<open>
  C6, as stated, fails on the code: the claim counts \<open>instance_id\<close> among the outputs
  whose absence fails the validation, but \<open>required_outputs\<close> is
  \<open>["public_ip", "private_key_path"]\<close>. An output without \<open>instance_id\<close> passes.
\<close>

theorem validation_ignores_instance_id:
  "\<not> dict_has outputs_without_instance_id ''instance_id'' \<and>
   validate_terraform_deployment validation_without_instance_id"
  by (simp add: validate_terraform_deployment_def validation_without_instance_id_def
      outputs_without_instance_id_def required_outputs_def dict_has_def dict_get_def)

lemma check_required_two:
  "check_required (VDict outputs) [a, b] \<longleftrightarrow> output_present outputs a \<and> output_present outputs b"
  by (auto simp: output_present_def split: option.splits pyval.splits)

lemma check_required_not_dict:
  "(\<And>kvs. outputs \<noteq> VDict kvs) \<Longrightarrow> \<not> check_required outputs (a # rest)"
  by (cases outputs) auto

text \<open>
  C6, amended. The validation succeeds exactly when the state file exists with at least
  1024 bytes, \<open>terraform init\<close> does not raise, \<open>terraform output -json\<close> completes
  with return code 0 and a JSON object, and in it \<open>public_ip\<close> and
  \<open>private_key_path\<close> are both present with a non-empty value; in every other case,
  so whenever one of these two outputs is missing or empty, it fails.
\<close>

theorem validate_terraform_deployment_iff:
  "validate_terraform_deployment ve \<longleftrightarrow>
     state_exists ve \<and> 1024 \<le> state_size ve \<and> init_run ve \<noteq> Raised \<and>
     (\<exists>outputs. output_run ve = Completed 0 (Some (VDict outputs)) \<and>
                output_present outputs ''public_ip'' \<and>
                output_present outputs ''private_key_path'')"
proof (cases "output_run ve")
  case Raised
  then show ?thesis
    by (simp add: validate_terraform_deployment_def split: run_result.splits)
next
  case (Completed returncode parsed)
  show ?thesis
  proof (cases parsed)
    case None
    with Completed show ?thesis
      by (simp add: validate_terraform_deployment_def split: run_result.splits)
  next
    case (Some outputs)
    show ?thesis
    proof (cases "\<exists>kvs. outputs = VDict kvs")
      case True
      then obtain kvs where "outputs = VDict kvs" ..
      with Completed Some show ?thesis
        by (auto simp: validate_terraform_deployment_def required_outputs_def
            check_required_two simp del: check_required.simps split: run_result.splits)
    next
      case False
      then have "\<not> check_required outputs required_outputs"
        unfolding required_outputs_def by (intro check_required_not_dict) blast
      with Completed Some False show ?thesis
        by (auto simp: validate_terraform_deployment_def split: run_result.splits)
    qed
  qed
qed


lemma run_commands_cmds:
  "run_commands e dry_run cs = (x, executed) \<Longrightarrow> set executed \<subseteq> set cs"
proof (induction cs arbitrary: x executed)
  case Nil
  then show ?case by simp
next
  case (Cons c cs)
  obtain x' ex' where rest: "run_commands e dry_run cs = (x', ex')"
    by (cases "run_commands e dry_run cs")
  from Cons.IH [OF rest] have "set ex' \<subseteq> set cs" .
  with Cons.prems rest show ?case
    by (auto split: if_splits)
qed

lemma run_terraform_index:
  assumes "run_terraform e p r i dry_run uid = (x, executed)"
  shows "\<forall>entry \<in> set executed. cmd_region_index entry = i"
proof (cases "pre e")
  case PreOk
  obtain x' cs where rc:
    "run_commands e dry_run ([Init, Plan] @ (if \<not> dry_run then [Apply] else [])) = (x', cs)"
    by (cases "run_commands e dry_run ([Init, Plan] @ (if \<not> dry_run then [Apply] else []))")
  with assms PreOk show ?thesis
    by (auto simp: run_terraform_def)
next
  case PreRaises
  with assms show ?thesis by (auto simp: run_terraform_def)
next
  case PreFalse
  with assms show ?thesis by (auto simp: run_terraform_def)
qed

lemma run_terraform_apply_failed:
  assumes run: "run_terraform e p r i dry_run uid = (x, executed)"
    and has_apply: "\<exists>entry \<in> set executed. cmd entry = Apply"
    and failed: "\<not> apply_runs e \<or> \<not> validate_terraform_deployment (validation e)"
  shows "x = Inl ValidationError \<and> \<not> dry_run"
proof (cases "pre e")
  case PreOk
  show ?thesis
  proof (cases dry_run)
    case True
    with run PreOk has_apply show ?thesis
      by (auto simp: run_terraform_def split: if_splits)
  next
    case False
    with run PreOk has_apply failed show ?thesis
      by (auto simp: run_terraform_def cmd_runs_def split: if_splits)
  qed
next
  case PreRaises
  with run has_apply show ?thesis by (auto simp: run_terraform_def)
next
  case PreFalse
  with run has_apply show ?thesis by (auto simp: run_terraform_def)
qed

lemma get_terraform_output_nonempty:
  "get_terraform_output parsed = Inr server_info \<Longrightarrow> server_info \<noteq> []"
  by (auto simp: get_terraform_output_def split: option.splits pyval.splits sum.splits)

lemma deploy_regions_step:
  assumes run: "deploy_regions t p i (r # rest) dry_run ity env = (x, t', executed)"
  obtains (stopped) x_i where
      "run_terraform (tf (region_envs env i)) p r i dry_run (token_hex env) = (x_i, executed)"
      "t' = t" "x \<noteq> Inr True"
  | (continued) log_i t1 later where
      "run_terraform (tf (region_envs env i)) p r i dry_run (token_hex env) = (Inr True, log_i)"
      "executed = log_i @ later"
      "deploy_regions t1 p (Suc i) rest dry_run ity env = (x, t', later)"
      "dry_run \<Longrightarrow> t1 = t"
      "\<not> dry_run \<Longrightarrow> \<exists>server_info i'.
         add_deployment t (p @ ''-'' @ r @ ''-'' @ strftime (registered_at (region_envs env i)))
           p r server_info
           (Some [(''instance_type'', VStr ity), (''wireguard_port'', wireguard_port env),
                  (''subnet'', server_subnet env)])
           (registered_at (region_envs env i)) = Inr (i', t1)"
proof -
  let ?renv = "region_envs env i"
  obtain x_i log_i where rt:
    "run_terraform (tf ?renv) p r i dry_run (token_hex env) = (x_i, log_i)"
    by (cases "run_terraform (tf ?renv) p r i dry_run (token_hex env)")
  show thesis
  proof (cases x_i)
    case (Inl e)
    with run rt show ?thesis by (intro stopped [of x_i]) (auto simp: Let_def)
  next
    case (Inr ok)
    show ?thesis
    proof (cases ok)
      case False
      with run rt Inr show ?thesis by (intro stopped [of x_i]) (auto simp: Let_def)
    next
      case True
      note ok = Inr True
      show ?thesis
      proof (cases "get_terraform_output (outputs_json ?renv)")
        case (Inl e)
        with run rt ok show ?thesis by (intro stopped [of x_i]) (auto simp: Let_def)
      next
        case (Inr server_info)
        then have ne: "server_info \<noteq> []" by (rule get_terraform_output_nonempty)
        note out = Inr
        show ?thesis
        proof (cases dry_run)
          case True
          obtain x2 t2 later where nxt:
            "deploy_regions t p (Suc i) rest dry_run ity env = (x2, t2, later)"
            by (cases "deploy_regions t p (Suc i) rest dry_run ity env")
          with run rt ok out True have "x = x2" "t' = t2" "executed = log_i @ later"
            by (auto simp: Let_def)
          with nxt rt ok True show ?thesis
            by (intro continued [of log_i later t]) auto
        next
          case False
          note wet = False
          show ?thesis
          proof (cases "configure ?renv")
            case (Inl e)
            with run rt ok out wet ne show ?thesis
              by (intro stopped [of x_i]) (auto simp: Let_def)
          next
            case (Inr cok)
            show ?thesis
            proof (cases cok)
              case False
              with run rt ok out wet ne Inr show ?thesis
                by (intro stopped [of x_i]) (auto simp: Let_def)
            next
              case True
              note conf = Inr True
              let ?add = "add_deployment t
                 (p @ ''-'' @ r @ ''-'' @ strftime (registered_at ?renv)) p r server_info
                 (Some [(''instance_type'', VStr ity), (''wireguard_port'', wireguard_port env),
                        (''subnet'', server_subnet env)])
                 (registered_at ?renv)"
              show ?thesis
              proof (cases ?add)
                case (Inl e)
                with run rt ok out wet ne conf show ?thesis
                  by (intro stopped [of x_i]) (auto simp: Let_def)
              next
                case (Inr it1)
                obtain i' t1 where it1: "it1 = (i', t1)" by (cases it1)
                obtain x2 t2 later where nxt:
                  "deploy_regions t1 p (Suc i) rest dry_run ity env = (x2, t2, later)"
                  by (cases "deploy_regions t1 p (Suc i) rest dry_run ity env")
                with run rt ok out wet ne conf Inr it1
                have "x = x2" "t' = t2" "executed = log_i @ later"
                  by (auto simp: Let_def)
                with nxt rt ok wet Inr it1 show ?thesis
                  by (intro continued [of log_i later t1]) auto
              qed
            qed
          qed
        qed
      qed
    qed
  qed
qed

lemma deploy_regions_index:
  "deploy_regions t p i regs dry_run ity env = (x, t', executed) \<Longrightarrow>
   \<forall>entry \<in> set executed. i \<le> cmd_region_index entry"
proof (induction regs arbitrary: t i x t' executed)
  case Nil
  then show ?case by simp
next
  case (Cons r regs)
  from Cons.prems show ?case
  proof (cases rule: deploy_regions_step)
    case (stopped x_i)
    from run_terraform_index [OF stopped(1)] show ?thesis by simp
  next
    case (continued log_i t1 later)
    from run_terraform_index [OF continued(1)] have "\<forall>entry \<in> set log_i. cmd_region_index entry = i" .
    moreover from Cons.IH [OF continued(3)] have "\<forall>entry \<in> set later. Suc i \<le> cmd_region_index entry" .
    ultimately show ?thesis unfolding continued(2) by auto
  qed
qed

text \<open>
  C5. In a \<open>deploy\<close> call with at least two regions in which the \<open>apply\<close> command
  of the second region was executed and failed (the command raised, or the validation
  after it failed): the call does not return success (it returns \<open>False\<close> or raises),
  the Ledger holds the first region's deployment with status \<open>active\<close>, and no
  Terraform command was executed for a region after the second. That \<open>apply\<close> was
  executed excludes a dry run, in which only \<open>plan\<close> runs.
\<close>

theorem deploy_fail_fast:
  assumes run: "deploy t prov (r1 # r2 # rest) dry_run instance_type env = (res, t', executed)"
    and attempted: "\<exists>entry \<in> set executed. cmd_region_index entry = 1 \<and> cmd entry = Apply"
    and failed: "\<not> apply_runs (tf (region_envs env 1)) \<or>
                 \<not> validate_terraform_deployment (validation (tf (region_envs env 1)))"
  shows "res \<noteq> Inr True \<and>
     (\<exists>d \<in> set (get_deployments_by_region t' prov r1).
        dep_id d = prov @ ''-'' @ r1 @ ''-'' @ strftime (registered_at (region_envs env 0)) \<and>
        status d = ''active'') \<and>
     (\<forall>entry \<in> set executed. cmd_region_index entry \<le> 1)"
proof -
  define ity where "ity = (case instance_type of None \<Rightarrow> default_types prov | Some ty \<Rightarrow> ty)"
  from attempted have "executed \<noteq> []" by auto
  with run have dr: "deploy_regions t prov 0 (r1 # r2 # rest) dry_run ity env = (res, t', executed)"
    unfolding deploy_def ity_def by (simp split: if_splits)
  from dr show ?thesis
  proof (cases rule: deploy_regions_step)
    case (stopped x0)
    from run_terraform_index [OF stopped(1)] attempted show ?thesis by auto
  next
    case first: (continued log0 t1 later)
    from run_terraform_index [OF first(1)] have idx0: "\<forall>entry \<in> set log0. cmd_region_index entry = 0" .
    with attempted first(2) have att1: "\<exists>entry \<in> set later. cmd_region_index entry = 1 \<and> cmd entry = Apply"
      by auto
    from first(3) have dr1: "deploy_regions t1 prov 1 (r2 # rest) dry_run ity env = (res, t', later)"
      by simp
    from dr1 show ?thesis
    proof (cases rule: deploy_regions_step)
      case (stopped x1)
      from run_terraform_index [OF stopped(1)] have idx1: "\<forall>entry \<in> set later. cmd_region_index entry = 1" .
      from att1 have "\<exists>entry \<in> set later. cmd entry = Apply" by auto
      from run_terraform_apply_failed [OF stopped(1) this failed] have wet: "\<not> dry_run" by simp
      from first(5) [OF wet] obtain server_info i' where add:
        "add_deployment t (prov @ ''-'' @ r1 @ ''-'' @ strftime (registered_at (region_envs env 0)))
           prov r1 server_info
           (Some [(''instance_type'', VStr ity), (''wireguard_port'', wireguard_port env),
                  (''subnet'', server_subnet env)])
           (registered_at (region_envs env 0)) = Inr (i', t1)"
        by blast
      from add_deployment_result [OF add] obtain d where
        l: "get_deployments_by_region t1 prov r1 = get_deployments_by_region t prov r1 @ [d]"
        and d: "dep_id d = i'" "status d = ''active''"
          "i' = prov @ ''-'' @ r1 @ ''-'' @ strftime (registered_at (region_envs env 0))"
        by auto
      from l d stopped(2) have registered:
        "\<exists>d \<in> set (get_deployments_by_region t' prov r1).
           dep_id d = prov @ ''-'' @ r1 @ ''-'' @ strftime (registered_at (region_envs env 0)) \<and>
           status d = ''active''"
        by auto
      from idx0 idx1 first(2) have "\<forall>entry \<in> set executed. cmd_region_index entry \<le> 1"
        by auto
      with stopped(3) registered show ?thesis by (intro conjI)
    next
      case (continued log1 t2 later2)
      from deploy_regions_index [OF continued(3)]
      have "\<forall>entry \<in> set later2. Suc 1 \<le> cmd_region_index entry" .
      with att1 continued(2) have "\<exists>entry \<in> set log1. cmd entry = Apply" by auto
      from run_terraform_apply_failed [OF continued(1) this failed] show ?thesis by simp
    qed
  qed
qed

lemma deploy_example_executed:
  "map (\<lambda>entry. (cmd_region_index entry, cmd entry)) (snd (snd deploy_example))
   = [(0, Init), (0, Plan), (0, Apply), (1, Init), (1, Plan), (1, Apply)]"
  by (simp add: deploy_example_def deploy_def deploy_env_example_def region_succeeds_def
      region_apply_fails_def tf_succeeds_def run_terraform_def cmd_runs_def
      validate_terraform_deployment_def required_outputs_def outputs_complete_def
      outputs_without_instance_id_def dict_get_def get_terraform_output_def output_value_def
      add_deployment_def estimate_cost_def instance_cost_def storage_cost_def dict_has_def
      instance_pricing_def default_types_def Let_def)

theorem deploy_fail_fast_witness:
  "map (\<lambda>entry. (cmd_region_index entry, cmd entry)) (snd (snd deploy_example))
     = [(0, Init), (0, Plan), (0, Apply), (1, Init), (1, Plan), (1, Apply)] \<and>
   \<not> apply_runs (tf (region_envs deploy_env_example 1)) \<and>
   fst deploy_example \<noteq> Inr True \<and>
   (\<exists>d. d \<in> set (get_deployments_by_region (fst (snd deploy_example)) ''aws'' ''us-east-1'') \<and>
        dep_id d = ''aws-us-east-1-20231114-221320'' \<and> status d = ''active'') \<and>
   list_all (\<lambda>entry. cmd_region_index entry \<le> 1) (snd (snd deploy_example))"
proof -
  have run: "deploy empty_tracker ''aws'' (''us-east-1'' # ''us-west-2'' # [''eu-west-1'']) False None
       deploy_env_example = (fst deploy_example, fst (snd deploy_example), snd (snd deploy_example))"
    by (simp add: deploy_example_def)
  have "(1, Apply) \<in> set (map (\<lambda>entry. (cmd_region_index entry, cmd entry))
                            (snd (snd deploy_example)))"
    unfolding deploy_example_executed by simp
  then have att: "\<exists>entry \<in> set (snd (snd deploy_example)).
                    cmd_region_index entry = 1 \<and> cmd entry = Apply"
    by auto
  have failed: "\<not> apply_runs (tf (region_envs deploy_env_example 1))"
    by (simp add: deploy_env_example_def region_apply_fails_def)
  then have failed': "\<not> apply_runs (tf (region_envs deploy_env_example 1)) \<or>
      \<not> validate_terraform_deployment (validation (tf (region_envs deploy_env_example 1)))" ..
  have ts: "registered_at (region_envs deploy_env_example 0) = t_2023"
    by (simp add: deploy_env_example_def region_succeeds_def)
  from deploy_fail_fast [OF run att failed'] failed deploy_example_executed
  show ?thesis
    by (auto simp: ts strftime_t_2023 list_all_iff)
qed


lemma deploy_regions_records:
  assumes "deploy_regions t p i regs dry_run ity env = (x, t', executed)"
  shows "\<forall>d \<in> set (list_all_deployments t') - set (list_all_deployments t).
           \<exists>j < length regs.
             dep_id d = p @ ''-'' @ regs ! j @ ''-'' @ strftime (registered_at (region_envs env (i + j)))"
  using assms
proof (induction regs arbitrary: t i x t' executed)
  case Nil
  then show ?case by simp
next
  case (Cons r regs)
  from Cons.prems show ?case
  proof (cases rule: deploy_regions_step)
    case (stopped x_i)
    then show ?thesis by simp
  next
    case (continued log_i t1 later)
    note IH = Cons.IH [OF continued(3)]
    have first: "\<forall>d \<in> set (list_all_deployments t1) - set (list_all_deployments t).
        dep_id d = p @ ''-'' @ r @ ''-'' @ strftime (registered_at (region_envs env i))"
    proof (cases dry_run)
      case True
      with continued(4) show ?thesis by simp
    next
      case False
      from continued(5) [OF False] obtain server_info i' where add:
        "add_deployment t (p @ ''-'' @ r @ ''-'' @ strftime (registered_at (region_envs env i)))
           p r server_info
           (Some [(''instance_type'', VStr ity), (''wireguard_port'', wireguard_port env),
                  (''subnet'', server_subnet env)])
           (registered_at (region_envs env i)) = Inr (i', t1)"
        by blast
      from add_deployment_result [OF add] obtain d0 where
        "dep_id d0 = i'"
        "i' = p @ ''-'' @ r @ ''-'' @ strftime (registered_at (region_envs env i))"
        "set (list_all_deployments t1) = insert d0 (set (list_all_deployments t))"
        by auto
      then show ?thesis by auto
    qed
    show ?thesis
    proof
      fix d
      assume d: "d \<in> set (list_all_deployments t') - set (list_all_deployments t)"
      show "\<exists>j < length (r # regs).
             dep_id d = p @ ''-'' @ (r # regs) ! j @ ''-''
                        @ strftime (registered_at (region_envs env (i + j)))"
      proof (cases "d \<in> set (list_all_deployments t1)")
        case True
        with d first have "dep_id d = p @ ''-'' @ (r # regs) ! 0 @ ''-''
                        @ strftime (registered_at (region_envs env (i + 0)))"
          by simp
        then show ?thesis by (intro exI [of _ 0]) simp
      next
        case False
        with d IH obtain j where "j < length regs"
          "dep_id d = p @ ''-'' @ regs ! j @ ''-''
             @ strftime (registered_at (region_envs env (Suc i + j)))"
          by blast
        then show ?thesis by (intro exI [of _ "Suc j"]) simp
      qed
    qed
  qed
qed

lemma deploy_records:
  assumes "deploy t prov regions dry_run instance_type env = (res, t', executed)"
  shows "\<forall>d \<in> set (list_all_deployments t') - set (list_all_deployments t).
           \<exists>j < length regions.
             dep_id d = prov @ ''-'' @ regions ! j @ ''-''
                        @ strftime (registered_at (region_envs env j))"
proof (cases "t' = t")
  case True
  then show ?thesis by simp
next
  case False
  with assms have "deploy_regions t prov 0 regions dry_run
      (case instance_type of None \<Rightarrow> default_types prov | Some ty \<Rightarrow> ty) env = (res, t', executed)"
    unfolding deploy_def by (auto split: if_splits)
  from deploy_regions_records [OF this] show ?thesis by simp
qed

lemma length_strftime: "valid_datetime a \<Longrightarrow> length (strftime a) = 15"
  by (simp add: strftime_digits)

lemma timestamp_id_not_uid:
  assumes "valid_datetime a"
  shows "\<not> has_uid_format p r (p @ ''-'' @ r @ ''-'' @ strftime a)"
proof -
  define pre where "pre = p @ ''-'' @ r @ ''-''"
  have eq: "p @ ''-'' @ r @ ''-'' @ strftime a = pre @ strftime a"
    by (simp add: pre_def)
  have "length (drop (length pre) (pre @ strftime a)) = 15"
    using length_strftime [OF assms] by simp
  then show ?thesis
    unfolding has_uid_format_def Let_def eq pre_def [symmetric] by simp
qed

text \<open>
  Whatever the regions, the token and the outcome: every record that a \<open>deploy\<close> call
  adds to the Ledger has the id \<open>{provider}-{region}-{YYYYMMDD}-{HHMMSS}\<close>, the time
  being the clock reading at which the region was registered, and such an id is never of
  the token format for its provider and region.
\<close>

lemma deploy_records_timestamp_ids:
  assumes run: "deploy t prov regions dry_run instance_type env = (res, t', executed)"
    and clocks: "\<forall>j < length regions. valid_datetime (registered_at (region_envs env j))"
  shows "\<forall>d \<in> set (list_all_deployments t') - set (list_all_deployments t).
            \<exists>j < length regions.
              dep_id d = prov @ ''-'' @ regions ! j @ ''-''
                         @ strftime (registered_at (region_envs env j)) \<and>
              matches_timestamp (strftime (registered_at (region_envs env j))) \<and>
              \<not> has_uid_format prov (regions ! j) (dep_id d)"
proof
  fix d
  assume "d \<in> set (list_all_deployments t') - set (list_all_deployments t)"
  with deploy_records [OF run] obtain j where j: "j < length regions"
    and d: "dep_id d = prov @ ''-'' @ regions ! j @ ''-''
                       @ strftime (registered_at (region_envs env j))"
    by blast
  from clocks j have v: "valid_datetime (registered_at (region_envs env j))" by simp
  from v have "matches_timestamp (strftime (registered_at (region_envs env j)))"
    by (rule strftime_matches)
  moreover from v have "\<not> has_uid_format prov (regions ! j) (dep_id d)"
    unfolding d by (rule timestamp_id_not_uid)
  ultimately show "\<exists>j < length regions.
            dep_id d = prov @ ''-'' @ regions ! j @ ''-''
                       @ strftime (registered_at (region_envs env j)) \<and>
            matches_timestamp (strftime (registered_at (region_envs env j))) \<and>
            \<not> has_uid_format prov (regions ! j) (dep_id d)"
    using j d by blast
qed


section \<open>Properties of the Cost Model\<close>

lemma fadd_mono: "x \<le> x' \<Longrightarrow> y \<le> y' \<Longrightarrow> fadd x y \<le> fadd x' y'"
  unfolding fadd_def by (intro rnd_mono add_mono)

lemma fsub_mono_left: "x \<le> x' \<Longrightarrow> fsub x y \<le> fsub x' y"
  unfolding fsub_def by (intro rnd_mono diff_right_mono)

lemma fmul_mono_left: "0 \<le> c \<Longrightarrow> x \<le> y \<Longrightarrow> fmul x c \<le> fmul y c"
  unfolding fmul_def by (intro rnd_mono mult_right_mono)

lemma float_lit_nonneg: "0 \<le> q \<Longrightarrow> 0 \<le> float_lit q"
  unfolding float_lit_def by (rule rnd_nonneg)

lemma map_of_pricing_known:
  assumes "prov \<in> set [''aws'', ''azure'', ''digitalocean'', ''hetzner'']"
  shows "\<exists>pp. map_of pricing prov = Some pp"
  using assms by (auto simp: pricing_def)

lemma calculate_bandwidth_cost_100_200:
  assumes "prov \<in> set [''aws'', ''azure'', ''digitalocean'', ''hetzner'']"
  shows "\<exists>x y. calculate_bandwidth_cost prov 100 = Inr x \<and>
               calculate_bandwidth_cost prov 200 = Inr y \<and> x \<le> y"
proof -
  have aws: "fmul 100 (float_lit (9 / 100)) \<le> fmul 200 (float_lit (9 / 100))"
    by (intro fmul_mono_left float_lit_nonneg) simp_all
  have azure: "fmul (fsub 100 5) (float_lit (87 / 1000)) \<le> fmul (fsub 200 5) (float_lit (87 / 1000))"
    by (intro fmul_mono_left float_lit_nonneg fsub_mono_left) simp_all
  from map_of_pricing_known [OF assms] obtain pp where pp: "map_of pricing prov = Some pp" ..
  from assms consider "prov = ''aws''" | "prov = ''azure''" | "prov = ''digitalocean''"
    | "prov = ''hetzner''" by auto
  then show ?thesis
  proof cases
    case 1
    with aws pp show ?thesis by (simp add: calculate_bandwidth_cost_def)
  next
    case 2
    with azure pp show ?thesis by (simp add: calculate_bandwidth_cost_def)
  next
    case 3
    with pp show ?thesis by (simp add: calculate_bandwidth_cost_def)
  next
    case 4
    with pp show ?thesis by (simp add: calculate_bandwidth_cost_def)
  qed
qed

text \<open>
  C9. For each of the four providers, with instance type, region, storage and hours
  fixed: when the estimate for 100 GB of bandwidth returns, so does the estimate for
  200 GB, and its \<open>total_monthly\<close> is not smaller. Every float operation of the
  computation is monotone, rounding included.
\<close>

theorem estimate_bandwidth_200_ge_100:
  assumes prov: "prov \<in> set [''aws'', ''azure'', ''digitalocean'', ''hetzner'']"
    and a: "estimate_monthly_cost prov instance_type reg_name 100 storage_gb hours now = Inr a"
  shows "\<exists>b. estimate_monthly_cost prov instance_type reg_name 200 storage_gb hours now' = Inr b
             \<and> total_monthly a \<le> total_monthly b"
proof -
  from a obtain pp where pp: "map_of pricing prov = Some pp"
    by (cases "map_of pricing prov") (simp_all add: estimate_monthly_cost_def)
  from a pp obtain hourly where h: "map_of (instances pp) instance_type = Some hourly"
    by (cases "map_of (instances pp) instance_type") (simp_all add: estimate_monthly_cost_def)
  define m where "m = (case map_of (region_modifiers pp) reg_name of
                         None \<Rightarrow> float_lit 1 | Some m \<Rightarrow> m)"
  define base where "base = fadd (fmul (fmul hourly m) hours) (fmul (ip_hourly pp) hours)"
  define sc where "sc = fmul (storage_first pp) storage_gb"
  from calculate_bandwidth_cost_100_200 [OF prov] obtain x y
    where x: "calculate_bandwidth_cost prov 100 = Inr x"
      and y: "calculate_bandwidth_cost prov 200 = Inr y" and xy: "x \<le> y" by blast
  from a pp h x have ta: "total_monthly a = round2 (fadd (fadd base x) sc)"
    by (auto simp: estimate_monthly_cost_def Let_def base_def sc_def m_def)
  obtain b where b: "estimate_monthly_cost prov instance_type reg_name 200 storage_gb hours now' = Inr b"
    using pp h y by (simp add: estimate_monthly_cost_def Let_def)
  from b pp h y have tb: "total_monthly b = round2 (fadd (fadd base y) sc)"
    by (auto simp: estimate_monthly_cost_def Let_def base_def sc_def m_def)
  have "total_monthly a \<le> total_monthly b"
    unfolding ta tb by (intro round2_mono fadd_mono order_refl xy)
  with b show ?thesis by blast
qed

theorem estimate_bandwidth_200_ge_100_witness:
  "''aws'' \<in> set [''aws'', ''azure'', ''digitalocean'', ''hetzner''] \<and>
   (\<exists>a b. estimate_monthly_cost ''aws'' ''t3.micro'' ''us-east-1'' 100 20 730 t_2023 = Inr a \<and>
          estimate_monthly_cost ''aws'' ''t3.micro'' ''us-east-1'' 200 20 730 t_2023 = Inr b \<and>
          total_monthly a \<le> total_monthly b)"
proof -
  obtain a where a: "estimate_monthly_cost ''aws'' ''t3.micro'' ''us-east-1'' 100 20 730 t_2023 = Inr a"
    by (simp add: estimate_monthly_cost_def calculate_bandwidth_cost_def pricing_def Let_def)
  from estimate_bandwidth_200_ge_100 [OF _ a, of t_2023] a show ?thesis by auto
qed


end
